theory Spec2Isabelle
  imports Main "HOL-Library.Word"
begin

unbundle bit_operations_syntax

section \<open>Constants and basic types of main.go\<close>

text \<open>
  A Go \<open>byte\<close> is an 8-bit word whose arithmetic wraps. A Go \<open>string\<close> is a
  sequence of bytes; it is modelled as a list of bytes, and the two command literals are
  given by the character codes of their ASCII text.
\<close>

type_synonym byte = "8 word"
type_synonym gostring = "byte list"

definition MAXNUMADR :: nat where "MAXNUMADR = 32"
definition ACK :: int where "ACK = 6"
definition NAK :: int where "NAK = 21"
definition ETX :: byte where "ETX = 0x03"
definition TXBUFFLEN :: nat where "TXBUFFLEN = 2200"
definition RXBUFFLEN :: nat where "RXBUFFLEN = 255"

text \<open>The package-level variable \<open>maxRetrys\<close> is initialised to 25 and never assigned.\<close>

definition maxRetrys :: int where "maxRetrys = 25"

definition cmdSN :: gostring where "cmdSN = map of_char ''SN ?''"
definition cmdMEA :: gostring where "cmdMEA = map of_char ''MEA CH 1 ?''"

text \<open>
  Every Go \<open>error\<close> value the protocol functions construct. The two arguments of
  \<open>IncompleteWrite\<close> are the expected and the written byte counts.
\<close>

datatype error =
    MessageExceedsBuffer
  | TooLongForETX
  | TooLongForBCC
  | WriteFailed
  | IncompleteWrite nat nat
  | ReadTimeout
  | SerialReadError
  | NoDataRead
  | BCCFailed

text \<open>
  A run-time panic of Go (here: an array index out of range) ends the process; the
  functions that index the global arrays return \<open>Panic\<close> in that case.
\<close>

datatype 'a result = Panic | Ret (the_Ret: 'a)

section \<open>The frame codec\<close>

subsection \<open>WriteStrPort: building the request frame\<close>

text \<open>
  The loop over \<open>chars\<close> of \<open>WriteStrPort\<close>: \<open>a\<close> is the write position,
  \<open>bcc\<close> the running checksum, \<open>txbuff\<close> the transmit buffer.
\<close>

fun copy_chars :: "gostring \<Rightarrow> nat \<Rightarrow> byte \<Rightarrow> byte list \<Rightarrow> error + (nat \<times> byte \<times> byte list)" where
  "copy_chars [] a bcc txbuff = Inr (a, bcc, txbuff)"
| "copy_chars (c # cs) a bcc txbuff =
     (if a \<ge> TXBUFFLEN - 2 then Inl MessageExceedsBuffer
      else (let txbuff' = txbuff[a := c]
            in copy_chars cs (a + 1) (bcc XOR txbuff' ! a) txbuff'))"

text \<open>
  \<open>WriteStrPort\<close> up to the call of \<open>port.Write\<close>: the result is the slice
  \<open>txbuff[:a]\<close> handed to the port, or the error returned before any write.
\<close>

definition WriteStrPort_frame :: "gostring \<Rightarrow> byte \<Rightarrow> error + byte list" where
  "WriteStrPort_frame chars adr =
     (let txbuff0 = replicate TXBUFFLEN (0 :: byte);
          txbuff1 = txbuff0[0 := adr + 0x80]
      in case copy_chars chars 1 0 txbuff1 of
           Inl e \<Rightarrow> Inl e
         | Inr (a, bcc, txbuff2) \<Rightarrow>
             if a \<ge> TXBUFFLEN - 1 then Inl TooLongForETX
             else (let txbuff3 = txbuff2[a := ETX];
                       bcc' = bcc XOR txbuff3 ! a;
                       a' = a + 1
                   in if a' \<ge> TXBUFFLEN then Inl TooLongForBCC
                      else (let txbuff4 = txbuff3[a' := bcc'];
                                a'' = a' + 1
                            in Inr (take a'' txbuff4))))"

subsection \<open>ReadStrPort: checking the response frame\<close>

text \<open>The checksum loop \<open>for n := 0; n < iIn-1; n++ { bcc ^= result[n] }\<close>.\<close>

fun bcc_loop :: "byte list \<Rightarrow> byte \<Rightarrow> byte" where
  "bcc_loop [] bcc = bcc"
| "bcc_loop (b # bs) bcc = bcc_loop bs (bcc XOR b)"

text \<open>
  \<open>ReadStrPort\<close> after a successful \<open>port.Read\<close>: \<open>raw\<close> is the part
  \<open>result[0..iIn-1]\<close> of the receive buffer that the port filled, so \<open>iIn\<close> is its
  length. The function returns Go's triple (status byte, string, error); the string
  component is the literal \<open>""\<close> on every path of the source.
\<close>

definition ReadStrPort_bytes :: "byte list \<Rightarrow> byte \<times> gostring \<times> error option" where
  "ReadStrPort_bytes raw =
     (let iIn = length raw
      in if iIn \<le> 0 then (0x00, [], Some NoDataRead)
         else (let bcc = bcc_loop (take (iIn - 1) raw) 0x00
               in if bcc \<noteq> raw ! (iIn - 1) then (0x00, [], Some BCCFailed)
                  else (let result = raw[iIn - 1 := 0x00]
                        in (result ! 0, [], None))))"

subsection \<open>getValue: post-processing of the received text\<close>

text \<open>
  Go's \<open>unicode.IsPrint\<close> and \<open>unicode.IsSpace\<close> on \<open>rune(b)\<close> for a byte
  \<open>b\<close>, that is on the code points below U+0100, as the Latin-1 tables of package
  \<open>unicode\<close> decide them.
\<close>

definition IsPrint :: "byte \<Rightarrow> bool" where
  "IsPrint b = ((0x20 \<le> b \<and> b \<le> 0x7E) \<or> (0xA1 \<le> b \<and> b \<noteq> 0xAD))"

definition IsSpace :: "byte \<Rightarrow> bool" where
  "IsSpace b = (b = 0x09 \<or> b = 0x0A \<or> b = 0x0B \<or> b = 0x0C \<or> b = 0x0D \<or> b = 0x20
                \<or> b = 0x85 \<or> b = 0xA0)"

text \<open>\<open>bytes.IndexByte\<close>: the first index of \<open>c\<close>, or -1.\<close>

fun IndexByte :: "byte list \<Rightarrow> byte \<Rightarrow> int" where
  "IndexByte [] c = -1"
| "IndexByte (b # bs) c =
     (if b = c then 0
      else (let r = IndexByte bs c in if r = -1 then -1 else r + 1))"

text \<open>The filter loop of \<open>getValue\<close>, which also stops at an end-of-text byte.\<close>

fun filter_loop :: "byte list \<Rightarrow> byte list" where
  "filter_loop [] = []"
| "filter_loop (b # bs) =
     (if b = ETX then []
      else if IsPrint b \<or> IsSpace b \<or> b = 0 then b # filter_loop bs
      else filter_loop bs)"

definition getValue_text :: "gostring \<Rightarrow> gostring" where
  "getValue_text bufStr =
     (let buf = bufStr;
          etxPos = IndexByte buf ETX;
          buf' = (if etxPos \<noteq> -1 then take (nat etxPos) buf else buf)
      in filter_loop buf')"

text \<open>
  The specification's \<open>decodeResponse\<close> is \<open>ReadStrPort\<close> on the received bytes
  followed by the post-processing of \<open>getValue\<close>: the status byte as \<open>int\<close> and the
  text stored through \<open>resultStr\<close>, or the error of the read.
\<close>

definition decodeResponse :: "byte list \<Rightarrow> error + (int \<times> gostring)" where
  "decodeResponse raw =
     (case ReadStrPort_bytes raw of
        (readChar, bufStr, Some e) \<Rightarrow> Inl e
      | (readChar, bufStr, None) \<Rightarrow> Inr (uint readChar, getValue_text bufStr))"

section \<open>The serial port and the global state\<close>

text \<open>
  The serial port, the wall clock and the database are outside the program. One run of
  the program meets one sequence of outcomes of each external call, so the environment
  is given as these sequences: the outcome of the \<open>k\<close>-th \<open>port.Read\<close>, of the
  \<open>k\<close>-th \<open>port.Write\<close> (which may depend on the bytes handed over), of the
  \<open>k\<close>-th \<open>serial.OpenPort\<close>, the value of the
  \<open>k\<close>-th \<open>time.Now()\<close>, and the outcome of the \<open>k\<close>-th comparison
  \<open>time.Since(lastScan) < minScanDelay\<close> of the main loop.
\<close>

datatype read_outcome =
    PortReadErr bool   \<comment> \<open>an error; the flag is \<open>os.IsTimeout(err)\<close>\<close>
  | PortRead "byte list"   \<comment> \<open>the bytes the port delivers\<close>

datatype write_outcome =
    PortWriteErr
  | PortWrote nat   \<comment> \<open>the number of bytes written\<close>

type_synonym time = nat

record env =
  portRead :: "nat \<Rightarrow> read_outcome"
  portWrite :: "nat \<Rightarrow> byte list \<Rightarrow> write_outcome"
  portOpens :: "nat \<Rightarrow> bool"
  timeNow :: "nat \<Rightarrow> time"
  tooEarly :: "nat \<Rightarrow> bool"

text \<open>
  The package-level variables. A Go array \<open>[MAXNUMADR]T\<close> is a function from the
  index to the element; every function that indexes one checks the index against
  \<open>MAXNUMADR\<close> and returns \<open>Panic\<close> outside the range, as the Go run time does.
  The fields \<open>rdCount\<close>, \<open>wrCount\<close>, \<open>openCount\<close>, \<open>nowCount\<close> and
  \<open>waitCount\<close> count the external calls made so far, \<open>txLog\<close> lists the frames
  handed to \<open>port.Write\<close>, \<open>dbLog\<close> the triples handed to \<open>writeToPostgres\<close>.
\<close>

record state =
  retryCnt :: "nat \<Rightarrow> int"
  serNoStr :: "nat \<Rightarrow> gostring"
  valueStr :: "nat \<Rightarrow> gostring"
  scanAddress :: "nat \<Rightarrow> byte"
  adrCounter :: nat
  numAdresses :: nat
  timestamp :: "nat \<Rightarrow> time"
  msgSent :: "nat \<Rightarrow> int"
  msgReceived :: "nat \<Rightarrow> int"
  msgNAK :: "nat \<Rightarrow> int"
  numScans :: int
  numScansMain :: int
  rdCount :: nat
  wrCount :: nat
  openCount :: nat
  nowCount :: nat
  waitCount :: nat
  txLog :: "byte list list"
  dbLog :: "(gostring \<times> gostring \<times> time) list"

text \<open>
  \<open>WriteStrPort\<close>: the frame is built, handed to the port, and the port's answer is
  checked. The result is Go's \<open>error\<close> (\<open>None\<close> for \<open>nil\<close>).
\<close>

definition WriteStrPort :: "env \<Rightarrow> gostring \<Rightarrow> byte \<Rightarrow> state \<Rightarrow> error option \<times> state" where
  "WriteStrPort e chars adr s =
     (case WriteStrPort_frame chars adr of
        Inl err \<Rightarrow> (Some err, s)
      | Inr frame \<Rightarrow>
          (let s' = s\<lparr>wrCount := wrCount s + 1, txLog := txLog s @ [frame]\<rparr>
           in case portWrite e (wrCount s) frame of
                PortWriteErr \<Rightarrow> (Some WriteFailed, s')
              | PortWrote n \<Rightarrow>
                  if n \<noteq> length frame then (Some (IncompleteWrite (length frame) n), s')
                  else (None, s')))"

text \<open>
  \<open>ReadStrPort\<close>: one \<open>port.Read\<close> into a buffer of \<open>RXBUFFLEN\<close> bytes, which
  therefore takes at most that many of the bytes the port delivers.
\<close>

definition ReadStrPort :: "env \<Rightarrow> state \<Rightarrow> (byte \<times> gostring \<times> error option) \<times> state" where
  "ReadStrPort e s =
     (let s' = s\<lparr>rdCount := rdCount s + 1\<rparr>
      in case portRead e (rdCount s) of
           PortReadErr isTimeout \<Rightarrow>
             ((0x00, [], Some (if isTimeout then ReadTimeout else SerialReadError)), s')
         | PortRead bs \<Rightarrow> (ReadStrPort_bytes (take RXBUFFLEN bs), s'))"

section \<open>The device session: getValue\<close>

text \<open>
  The pointer \<open>resultStr\<close> of \<open>getValue\<close> is \<open>&serNoStr[adrCounter]\<close> or
  \<open>&valueStr[adrCounter]\<close>.
\<close>

datatype strref = SerNoRef nat | ValueRef nat

fun store_str :: "strref \<Rightarrow> gostring \<Rightarrow> state \<Rightarrow> state" where
  "store_str (SerNoRef i) v s = s\<lparr>serNoStr := (serNoStr s)(i := v)\<rparr>"
| "store_str (ValueRef i) v s = s\<lparr>valueStr := (valueStr s)(i := v)\<rparr>"

text \<open>
  \<open>getValue\<close> returns Go's pair (status as \<open>int\<close>, error). The counters
  \<open>msgSent\<close> and \<open>msgReceived\<close> are indexed by the address byte \<open>adr\<close> itself.
\<close>

definition getValue :: "env \<Rightarrow> strref \<Rightarrow> gostring \<Rightarrow> byte \<Rightarrow> state \<Rightarrow> ((int \<times> error option) \<times> state) result" where
  "getValue e resultStr cmdStr adr s =
     (let s1 = store_str resultStr [] s
      in case WriteStrPort e cmdStr adr s1 of
           (Some err, s2) \<Rightarrow> Ret ((0, Some err), s2)
         | (None, s2) \<Rightarrow>
             if unat adr \<ge> MAXNUMADR then Panic
             else (let s3 = s2\<lparr>msgSent := (msgSent s2)(unat adr := msgSent s2 (unat adr) + 1)\<rparr>
                   in case ReadStrPort e s3 of
                        ((readChar, bufStr, Some err), s4) \<Rightarrow> Ret ((0, Some err), s4)
                      | ((readChar, bufStr, None), s4) \<Rightarrow>
                          (let s5 = s4\<lparr>msgReceived :=
                                        (msgReceived s4)(unat adr := msgReceived s4 (unat adr) + 1)\<rparr>
                           in Ret ((uint readChar, None),
                                   store_str resultStr (getValue_text bufStr) s5))))"

text \<open>
  The error of the query that made the last port write before state \<open>s'\<close> (and the last
  port read, when that write succeeded), as \<open>getValue\<close> computes it from the outcomes of
  these two calls.
\<close>

definition last_query_error :: "env \<Rightarrow> gostring \<Rightarrow> byte \<Rightarrow> state \<Rightarrow> error option" where
  "last_query_error e cmdStr adr s' =
     (case WriteStrPort_frame cmdStr adr of
        Inl err \<Rightarrow> Some err
      | Inr frame \<Rightarrow>
          (case portWrite e (wrCount s' - 1) frame of
             PortWriteErr \<Rightarrow> Some WriteFailed
           | PortWrote n \<Rightarrow>
               if n \<noteq> length frame then Some (IncompleteWrite (length frame) n)
               else (case portRead e (rdCount s' - 1) of
                       PortReadErr isTimeout \<Rightarrow>
                         Some (if isTimeout then ReadTimeout else SerialReadError)
                     | PortRead bs \<Rightarrow> snd (snd (ReadStrPort_bytes (take RXBUFFLEN bs))))))"

text \<open>What a call of \<open>getValue\<close> that returns leaves unchanged.\<close>

lemma getValue_frame:
  assumes "getValue e r c a s = Ret (x, s')"
  shows "retryCnt s' = retryCnt s" "adrCounter s' = adrCounter s" "numAdresses s' = numAdresses s"
    "scanAddress s' = scanAddress s" "timestamp s' = timestamp s" "msgNAK s' = msgNAK s"
    "numScans s' = numScans s" "numScansMain s' = numScansMain s"
    "nowCount s' = nowCount s" "openCount s' = openCount s" "waitCount s' = waitCount s" "dbLog s' = dbLog s"
  using assms
  by (cases r; auto simp: getValue_def WriteStrPort_def ReadStrPort_def Let_def
      split: sum.splits prod.splits option.splits write_outcome.splits read_outcome.splits if_splits)+

section \<open>The retry controller: getSerialNumber and getMeasurement\<close>

text \<open>
  The \<open>for\<close> loop of \<open>getSerialNumber\<close> from the current value of
  \<open>retryCnt[adrCounter]\<close>; \<open>err\<close> is the variable returned when the loop ends.
  A \<open>break\<close> leaves the counter as it is, \<open>continue\<close> and the end of the body
  run the post statement \<open>retryCnt[adrCounter]++\<close>.
\<close>

function getSerialNumber_loop :: "env \<Rightarrow> state \<Rightarrow> error option \<Rightarrow> (error option \<times> state) result" where
  "getSerialNumber_loop e s err =
     (let i = adrCounter s
      in if i \<ge> MAXNUMADR then Panic
         else if retryCnt s i < maxRetrys then
           (case getValue e (SerNoRef i) cmdSN (scanAddress s i) s of
              Panic \<Rightarrow> Panic
            | Ret ((portStatus, err'), s1) \<Rightarrow>
                if err' = None \<and> portStatus \<ge> 0 then Ret (err', s1)
                else if portStatus = NAK then
                  getSerialNumber_loop e
                    (s1\<lparr>msgNAK := (msgNAK s1)(i := msgNAK s1 i + 1),
                        retryCnt := (retryCnt s1)(i := retryCnt s1 i + 1)\<rparr>) err'
                else
                  getSerialNumber_loop e
                    (s1\<lparr>retryCnt := (retryCnt s1)(i := retryCnt s1 i + 1)\<rparr>) err')
         else Ret (err, s))"
  by pat_completeness auto
termination
  by (relation "measure (\<lambda>(e, s, err). nat (maxRetrys - retryCnt s (adrCounter s)))")
     (auto dest: getValue_frame(1) getValue_frame(2))

declare getSerialNumber_loop.simps [simp del]

text \<open>
  \<open>getSerialNumber\<close> clears the stored serial number and resets the retry counter
  of the current slot before the loop.
\<close>

definition getSerialNumber :: "env \<Rightarrow> state \<Rightarrow> (error option \<times> state) result" where
  "getSerialNumber e s =
     (let i = adrCounter s
      in if i \<ge> MAXNUMADR then Panic
         else (let s1 = s\<lparr>serNoStr := (serNoStr s)(i := [])\<rparr>;
                   s2 = s1\<lparr>retryCnt := (retryCnt s1)(i := 0)\<rparr>
               in getSerialNumber_loop e s2 None))"

text \<open>
  The \<open>for\<close> loop of \<open>getMeasurement\<close>. It has no init statement: it goes on
  from the value of \<open>retryCnt[adrCounter]\<close> that \<open>getSerialNumber\<close> left.
\<close>

function getMeasurement_loop :: "env \<Rightarrow> state \<Rightarrow> error option \<Rightarrow> (error option \<times> state) result" where
  "getMeasurement_loop e s err =
     (let i = adrCounter s
      in if i \<ge> MAXNUMADR then Panic
         else if retryCnt s i < maxRetrys then
           (case getValue e (ValueRef i) cmdMEA (scanAddress s i) s of
              Panic \<Rightarrow> Panic
            | Ret ((portStatus, err'), s1) \<Rightarrow>
                if err' = None \<and> portStatus = ACK then
                  Ret (err', s1\<lparr>timestamp := (timestamp s1)(i := timeNow e (nowCount s1)),
                                 nowCount := nowCount s1 + 1\<rparr>)
                else if portStatus = NAK then
                  getMeasurement_loop e
                    (s1\<lparr>msgNAK := (msgNAK s1)(i := msgNAK s1 i + 1),
                        retryCnt := (retryCnt s1)(i := retryCnt s1 i + 1)\<rparr>) err'
                else
                  getMeasurement_loop e
                    (s1\<lparr>retryCnt := (retryCnt s1)(i := retryCnt s1 i + 1)\<rparr>) err')
         else Ret (err, s))"
  by pat_completeness auto
termination
  by (relation "measure (\<lambda>(e, s, err). nat (maxRetrys - retryCnt s (adrCounter s)))")
     (auto dest: getValue_frame(1) getValue_frame(2))

declare getMeasurement_loop.simps [simp del]

text \<open>\<open>getMeasurement\<close>: one read whose result is discarded, then the loop.\<close>

definition getMeasurement :: "env \<Rightarrow> state \<Rightarrow> (error option \<times> state) result" where
  "getMeasurement e s =
     (case ReadStrPort e s of
        (dummy, s0) \<Rightarrow> getMeasurement_loop e s0 None)"


text \<open>
  The loops as rules: a run of a retry loop that returns is an immediate exit, an
  accepted response, or a counted attempt followed by a run from the updated state.
\<close>

lemma NAK_neq_ACK [simp]: "NAK \<noteq> ACK" "ACK \<noteq> NAK" "0 \<le> NAK"
  by (simp_all add: NAK_def ACK_def)

lemma getMeasurement_loop_induct [consumes 1, case_names exit accept nak other]:
  assumes run: "getMeasurement_loop e s err = Ret (x, s')"
    and exit: "\<And>s err. adrCounter s < MAXNUMADR \<Longrightarrow> \<not> retryCnt s (adrCounter s) < maxRetrys \<Longrightarrow>
                 P s err err s"
    and accept: "\<And>s err s1. adrCounter s < MAXNUMADR \<Longrightarrow> retryCnt s (adrCounter s) < maxRetrys \<Longrightarrow>
                 getValue e (ValueRef (adrCounter s)) cmdMEA (scanAddress s (adrCounter s)) s
                   = Ret ((ACK, None), s1) \<Longrightarrow>
                 P s err None (s1\<lparr>timestamp := (timestamp s1)(adrCounter s := timeNow e (nowCount s1)),
                                  nowCount := nowCount s1 + 1\<rparr>)"
    and nak: "\<And>s err s1 er x s'. adrCounter s < MAXNUMADR \<Longrightarrow> retryCnt s (adrCounter s) < maxRetrys \<Longrightarrow>
                 getValue e (ValueRef (adrCounter s)) cmdMEA (scanAddress s (adrCounter s)) s
                   = Ret ((NAK, er), s1) \<Longrightarrow>
                 getMeasurement_loop e
                   (s1\<lparr>msgNAK := (msgNAK s1)(adrCounter s := msgNAK s1 (adrCounter s) + 1),
                       retryCnt := (retryCnt s1)(adrCounter s := retryCnt s1 (adrCounter s) + 1)\<rparr>) er
                   = Ret (x, s') \<Longrightarrow>
                 P (s1\<lparr>msgNAK := (msgNAK s1)(adrCounter s := msgNAK s1 (adrCounter s) + 1),
                       retryCnt := (retryCnt s1)(adrCounter s := retryCnt s1 (adrCounter s) + 1)\<rparr>) er x s' \<Longrightarrow>
                 P s err x s'"
    and other: "\<And>s err s1 ps er x s'. adrCounter s < MAXNUMADR \<Longrightarrow> retryCnt s (adrCounter s) < maxRetrys \<Longrightarrow>
                 getValue e (ValueRef (adrCounter s)) cmdMEA (scanAddress s (adrCounter s)) s
                   = Ret ((ps, er), s1) \<Longrightarrow>
                 \<not> (er = None \<and> ps = ACK) \<Longrightarrow> ps \<noteq> NAK \<Longrightarrow>
                 getMeasurement_loop e
                   (s1\<lparr>retryCnt := (retryCnt s1)(adrCounter s := retryCnt s1 (adrCounter s) + 1)\<rparr>) er
                   = Ret (x, s') \<Longrightarrow>
                 P (s1\<lparr>retryCnt := (retryCnt s1)(adrCounter s := retryCnt s1 (adrCounter s) + 1)\<rparr>) er x s' \<Longrightarrow>
                 P s err x s'"
  shows "P s err x s'"
  using run
proof (induction "nat (maxRetrys - retryCnt s (adrCounter s))" arbitrary: s err rule: less_induct)
  case less
  let ?i = "adrCounter s"
  note run = less.prems
  from run have i: "?i < MAXNUMADR"
    by (subst (asm) getMeasurement_loop.simps) (simp add: Let_def split: if_splits)
  show ?case
  proof (cases "retryCnt s ?i < maxRetrys")
    case False
    with run i have "x = err" "s' = s"
      by (subst (asm) getMeasurement_loop.simps, simp add: Let_def)+
    with exit[OF i False] show ?thesis by simp
  next
    case True
    show ?thesis
    proof (cases "getValue e (ValueRef ?i) cmdMEA (scanAddress s ?i) s")
      case Panic
      with run i True show ?thesis
        by (subst (asm) getMeasurement_loop.simps) (simp add: Let_def)
    next
      case (Ret r)
      obtain ps er s1 where r: "r = ((ps, er), s1)" by (cases r) auto
      note gv = Ret[unfolded r]
      note fr = getValue_frame(1,2)[OF gv]
      consider (a) "er = None" "ps = ACK" | (n) "\<not> (er = None \<and> ps = ACK)" "ps = NAK"
        | (o) "\<not> (er = None \<and> ps = ACK)" "ps \<noteq> NAK" by blast
      then show ?thesis
      proof cases
        case a
        with run i True gv have "x = None"
          "s' = s1\<lparr>timestamp := (timestamp s1)(?i := timeNow e (nowCount s1)),
                                  nowCount := nowCount s1 + 1\<rparr>"
          by (subst (asm) getMeasurement_loop.simps, simp add: Let_def)+
        with accept[OF i True gv[unfolded a]] show ?thesis by simp
      next
        case n
        let ?s2 = "s1\<lparr>msgNAK := (msgNAK s1)(?i := msgNAK s1 ?i + 1),
                       retryCnt := (retryCnt s1)(?i := retryCnt s1 ?i + 1)\<rparr>"
        from run i True gv n have rec: "getMeasurement_loop e ?s2 er = Ret (x, s')"
          by (subst (asm) getMeasurement_loop.simps) (simp add: Let_def)
        have "nat (maxRetrys - retryCnt ?s2 (adrCounter ?s2)) < nat (maxRetrys - retryCnt s ?i)"
          using True fr by simp
        from less.hyps[OF this rec] have "P ?s2 er x s'" .
        with nak[OF i True gv[unfolded n(2)] rec] show ?thesis by simp
      next
        case o
        let ?s2 = "s1\<lparr>retryCnt := (retryCnt s1)(?i := retryCnt s1 ?i + 1)\<rparr>"
        from run i True gv o have rec: "getMeasurement_loop e ?s2 er = Ret (x, s')"
          by (subst (asm) getMeasurement_loop.simps) (simp add: Let_def)
        have "nat (maxRetrys - retryCnt ?s2 (adrCounter ?s2)) < nat (maxRetrys - retryCnt s ?i)"
          using True fr by simp
        from less.hyps[OF this rec] have "P ?s2 er x s'" .
        with other[OF i True gv o rec] show ?thesis by simp
      qed
    qed
  qed
qed


lemma getSerialNumber_loop_induct [consumes 1, case_names exit accept nak other]:
  assumes run: "getSerialNumber_loop e s err = Ret (x, s')"
    and exit: "\<And>s err. adrCounter s < MAXNUMADR \<Longrightarrow> \<not> retryCnt s (adrCounter s) < maxRetrys \<Longrightarrow>
                 P s err err s"
    and accept: "\<And>s err s1 ps. adrCounter s < MAXNUMADR \<Longrightarrow> retryCnt s (adrCounter s) < maxRetrys \<Longrightarrow>
                 getValue e (SerNoRef (adrCounter s)) cmdSN (scanAddress s (adrCounter s)) s
                   = Ret ((ps, None), s1) \<Longrightarrow> ps \<ge> 0 \<Longrightarrow>
                 P s err None s1"
    and nak: "\<And>s err s1 er x s'. adrCounter s < MAXNUMADR \<Longrightarrow> retryCnt s (adrCounter s) < maxRetrys \<Longrightarrow>
                 getValue e (SerNoRef (adrCounter s)) cmdSN (scanAddress s (adrCounter s)) s
                   = Ret ((NAK, er), s1) \<Longrightarrow> er \<noteq> None \<Longrightarrow>
                 getSerialNumber_loop e
                   (s1\<lparr>msgNAK := (msgNAK s1)(adrCounter s := msgNAK s1 (adrCounter s) + 1),
                       retryCnt := (retryCnt s1)(adrCounter s := retryCnt s1 (adrCounter s) + 1)\<rparr>) er
                   = Ret (x, s') \<Longrightarrow>
                 P (s1\<lparr>msgNAK := (msgNAK s1)(adrCounter s := msgNAK s1 (adrCounter s) + 1),
                       retryCnt := (retryCnt s1)(adrCounter s := retryCnt s1 (adrCounter s) + 1)\<rparr>) er x s' \<Longrightarrow>
                 P s err x s'"
    and other: "\<And>s err s1 ps er x s'. adrCounter s < MAXNUMADR \<Longrightarrow> retryCnt s (adrCounter s) < maxRetrys \<Longrightarrow>
                 getValue e (SerNoRef (adrCounter s)) cmdSN (scanAddress s (adrCounter s)) s
                   = Ret ((ps, er), s1) \<Longrightarrow>
                 \<not> (er = None \<and> ps \<ge> 0) \<Longrightarrow> ps \<noteq> NAK \<Longrightarrow>
                 getSerialNumber_loop e
                   (s1\<lparr>retryCnt := (retryCnt s1)(adrCounter s := retryCnt s1 (adrCounter s) + 1)\<rparr>) er
                   = Ret (x, s') \<Longrightarrow>
                 P (s1\<lparr>retryCnt := (retryCnt s1)(adrCounter s := retryCnt s1 (adrCounter s) + 1)\<rparr>) er x s' \<Longrightarrow>
                 P s err x s'"
  shows "P s err x s'"
  using run
proof (induction "nat (maxRetrys - retryCnt s (adrCounter s))" arbitrary: s err rule: less_induct)
  case less
  let ?i = "adrCounter s"
  note run = less.prems
  from run have i: "?i < MAXNUMADR"
    by (subst (asm) getSerialNumber_loop.simps) (simp add: Let_def split: if_splits)
  show ?case
  proof (cases "retryCnt s ?i < maxRetrys")
    case False
    with run i have "x = err" "s' = s"
      by (subst (asm) getSerialNumber_loop.simps, simp add: Let_def)+
    with exit[OF i False] show ?thesis by simp
  next
    case True
    show ?thesis
    proof (cases "getValue e (SerNoRef ?i) cmdSN (scanAddress s ?i) s")
      case Panic
      with run i True show ?thesis
        by (subst (asm) getSerialNumber_loop.simps) (simp add: Let_def)
    next
      case (Ret r)
      obtain ps er s1 where r: "r = ((ps, er), s1)" by (cases r) auto
      note gv = Ret[unfolded r]
      note fr = getValue_frame(1,2)[OF gv]
      consider (a) "er = None" "ps \<ge> 0" | (n) "\<not> (er = None \<and> ps \<ge> 0)" "ps = NAK"
        | (o) "\<not> (er = None \<and> ps \<ge> 0)" "ps \<noteq> NAK" by blast
      then show ?thesis
      proof cases
        case a
        with run i True gv have "x = None" "s' = s1"
          by (subst (asm) getSerialNumber_loop.simps, simp add: Let_def)+
        with accept[OF i True gv[unfolded a(1)] a(2)] show ?thesis by simp
      next
        case n
        let ?s2 = "s1\<lparr>msgNAK := (msgNAK s1)(?i := msgNAK s1 ?i + 1),
                       retryCnt := (retryCnt s1)(?i := retryCnt s1 ?i + 1)\<rparr>"
        from run i True gv n have rec: "getSerialNumber_loop e ?s2 er = Ret (x, s')"
          by (subst (asm) getSerialNumber_loop.simps) (auto simp: Let_def)
        have "nat (maxRetrys - retryCnt ?s2 (adrCounter ?s2)) < nat (maxRetrys - retryCnt s ?i)"
          using True fr by simp
        from less.hyps[OF this rec] have "P ?s2 er x s'" .
        moreover have "er \<noteq> None" using n by (auto simp: NAK_def)
        ultimately show ?thesis using nak[OF i True gv[unfolded n(2)] _ rec] by simp
      next
        case o
        let ?s2 = "s1\<lparr>retryCnt := (retryCnt s1)(?i := retryCnt s1 ?i + 1)\<rparr>"
        from run i True gv o have rec: "getSerialNumber_loop e ?s2 er = Ret (x, s')"
          by (subst (asm) getSerialNumber_loop.simps) (auto simp: Let_def)
        have "nat (maxRetrys - retryCnt ?s2 (adrCounter ?s2)) < nat (maxRetrys - retryCnt s ?i)"
          using True fr by simp
        from less.hyps[OF this rec] have "P ?s2 er x s'" .
        with other[OF i True gv o rec] show ?thesis by simp
      qed
    qed
  qed
qed


lemma getSerialNumber_loop_counters:
  "getSerialNumber_loop e s err = Ret (x, s') \<Longrightarrow>
     adrCounter s' = adrCounter s \<and> numAdresses s' = numAdresses s"
  by (induction rule: getSerialNumber_loop_induct)
     (auto dest: getValue_frame(2) getValue_frame(3))

lemma getMeasurement_loop_counters:
  "getMeasurement_loop e s err = Ret (x, s') \<Longrightarrow>
     adrCounter s' = adrCounter s \<and> numAdresses s' = numAdresses s"
  by (induction rule: getMeasurement_loop_induct)
     (auto dest: getValue_frame(2) getValue_frame(3))

lemma getSerialNumber_counters:
  "getSerialNumber e s = Ret (x, s') \<Longrightarrow>
     adrCounter s' = adrCounter s \<and> numAdresses s' = numAdresses s"
  by (auto simp: getSerialNumber_def Let_def split: if_splits
           dest: getSerialNumber_loop_counters)

lemma getMeasurement_counters:
  "getMeasurement e s = Ret (x, s') \<Longrightarrow>
     adrCounter s' = adrCounter s \<and> numAdresses s' = numAdresses s"
  by (auto simp: getMeasurement_def ReadStrPort_def Let_def
           split: prod.splits read_outcome.splits dest: getMeasurement_loop_counters)

section \<open>The scan scheduler: the main loop\<close>

text \<open>
  The loop \<open>for adrCounter = 0; adrCounter < numAdresses; adrCounter++\<close> of \<open>main\<close>
  from the current value of \<open>adrCounter\<close>: the errors of the two commands are only
  logged.
\<close>

function scan_addresses :: "env \<Rightarrow> state \<Rightarrow> state result" where
  "scan_addresses e s =
     (if adrCounter s < numAdresses s then
        (case getSerialNumber e s of
           Panic \<Rightarrow> Panic
         | Ret (err1, s1) \<Rightarrow>
             (case getMeasurement e s1 of
                Panic \<Rightarrow> Panic
              | Ret (err2, s2) \<Rightarrow> scan_addresses e (s2\<lparr>adrCounter := adrCounter s2 + 1\<rparr>)))
      else Ret s)"
  by pat_completeness auto
termination
  by (relation "measure (\<lambda>(e, s). numAdresses s - adrCounter s)")
     (auto dest!: getSerialNumber_counters getMeasurement_counters)

declare scan_addresses.simps [simp del]

text \<open>
  The second loop of \<open>main\<close> hands \<open>serNoStr[i]\<close>, \<open>valueStr[i]\<close> and
  \<open>timestamp[i]\<close> to \<open>writeToPostgres\<close> for the \<open>n\<close> indices from \<open>i\<close> on; the
  returned status is only logged.
\<close>

fun write_results :: "nat \<Rightarrow> nat \<Rightarrow> state \<Rightarrow> state result" where
  "write_results 0 i s = Ret s"
| "write_results (Suc n) i s =
     (if i \<ge> MAXNUMADR then Panic
      else write_results n (i + 1)
             (s\<lparr>dbLog := dbLog s @ [(serNoStr s i, valueStr s i, timestamp s i)]\<rparr>))"

text \<open>
  One pass of the main loop after the port has been opened: the discarded read, the
  scan of all addresses, and the hand-over of the results. (A failure to close the port
  is only logged.)
\<close>

definition scan_cycle :: "env \<Rightarrow> state \<Rightarrow> state result" where
  "scan_cycle e s3 =
     (case ReadStrPort e s3 of
        (dummy, s4) \<Rightarrow>
          (case scan_addresses e (s4\<lparr>adrCounter := 0\<rparr>) of
             Panic \<Rightarrow> Panic
           | Ret s5 \<Rightarrow> write_results (numAdresses s5) 0 s5))"

text \<open>
  The main loop \<open>for numScans == 0 || numScansMain > 0\<close>. With \<open>numScans = 0\<close> it
  never ends, so the model counts loop iterations down from \<open>fuel\<close> and returns
  \<open>None\<close> when the fuel is used up before the loop has ended. \<open>Some (Ret s)\<close> says
  that the loop condition became false in state \<open>s\<close>: \<open>main\<close> returns and the
  process ends.
\<close>

fun main_loop :: "nat \<Rightarrow> env \<Rightarrow> state \<Rightarrow> state result option" where
  "main_loop 0 e s = None"
| "main_loop (Suc fuel) e s =
     (if numScans s = 0 \<or> numScansMain s > 0 then
        (let wait = tooEarly e (waitCount s);
             s1 = s\<lparr>waitCount := waitCount s + 1\<rparr>
         in if wait then main_loop fuel e s1
            else (let s2 = (if numScansMain s1 > 0
                            then s1\<lparr>numScansMain := numScansMain s1 - 1\<rparr> else s1);
                      opened = portOpens e (openCount s2);
                      s3 = s2\<lparr>openCount := openCount s2 + 1\<rparr>
                  in if \<not> opened then main_loop fuel e s3
                     else (case scan_cycle e s3 of
                             Panic \<Rightarrow> Some Panic
                           | Ret s6 \<Rightarrow> main_loop fuel e s6)))
      else Some (Ret s))"

declare main_loop.simps [simp del]

section \<open>States and environments of concrete runs\<close>

text \<open>
  The state in which \<open>main\<close> enters its loop: Go's zero values, the configured
  addresses in \<open>scanAddress\<close>, and the configured number of scans.
\<close>

definition init_state :: "byte list \<Rightarrow> int \<Rightarrow> state" where
  "init_state adrs n =
     \<lparr>retryCnt = (\<lambda>i. 0), serNoStr = (\<lambda>i. []), valueStr = (\<lambda>i. []),
      scanAddress = (\<lambda>i. if i < length adrs then adrs ! i else 0),
      adrCounter = 0, numAdresses = length adrs, timestamp = (\<lambda>i. 0),
      msgSent = (\<lambda>i. 0), msgReceived = (\<lambda>i. 0), msgNAK = (\<lambda>i. 0),
      numScans = n, numScansMain = n,
      rdCount = 0, wrCount = 0, openCount = 0, nowCount = 0, waitCount = 0,
      txLog = [], dbLog = []\<rparr>"

text \<open>
  An environment for concrete runs: the port opens, every write is complete, the reads
  deliver the listed outcomes and time out afterwards, the scan delay has always
  elapsed.
\<close>

definition scripted :: "read_outcome list \<Rightarrow> env" where
  "scripted rs =
     \<lparr>portRead = (\<lambda>k. if k < length rs then rs ! k else PortReadErr True),
      portWrite = (\<lambda>k p. PortWrote (length p)),
      portOpens = (\<lambda>k. True),
      timeNow = (\<lambda>k. k),
      tooEarly = (\<lambda>k. False)\<rparr>"


text \<open>A state in which slot 0 holds a serial number and a measurement.\<close>

definition stored_state :: state where
  "stored_state =
     (init_state [1] 1)\<lparr>serNoStr := (\<lambda>i. [])(0 := map of_char ''SN001''),
                         valueStr := (\<lambda>i. [])(0 := map of_char ''23.5''),
                         timestamp := (\<lambda>i. 0)(0 := 7)\<rparr>"

text \<open>
  What the port does for one query: the write at position \<open>k\<close> takes the whole frame
  of the command, and the read at position \<open>k\<close> delivers a frame with a correct
  checksum, whose status byte is returned.
\<close>

definition write_ok :: "env \<Rightarrow> nat \<Rightarrow> gostring \<Rightarrow> byte \<Rightarrow> bool" where
  "write_ok e k cmdStr adr =
     (case WriteStrPort_frame cmdStr adr of
        Inl err \<Rightarrow> False
      | Inr frame \<Rightarrow> portWrite e k frame = PortWrote (length frame))"

definition reply_status :: "env \<Rightarrow> nat \<Rightarrow> byte option" where
  "reply_status e k =
     (case portRead e k of
        PortReadErr isTimeout \<Rightarrow> None
      | PortRead bs \<Rightarrow>
          (case ReadStrPort_bytes (take RXBUFFLEN bs) of
             (readChar, bufStr, None) \<Rightarrow> Some readChar
           | (readChar, bufStr, Some err) \<Rightarrow> None))"

text \<open>
  A run in which the serial-number command succeeds at its third attempt and the device
  then answers the measurement command with 24 NAK responses followed by an ACK.
\<close>

definition late_ack_env :: env where
  "late_ack_env =
     scripted ([PortReadErr True, PortReadErr True, PortRead [0x31, 0x31], PortReadErr True]
               @ replicate 24 (PortRead [0x15, 0x15]) @ [PortRead [0x06, 0x06]])"

definition after_serial :: state where
  "after_serial = snd (the_Ret (getSerialNumber late_ack_env (init_state [1] 1)))"

definition after_measurement :: state where
  "after_measurement = snd (the_Ret (getMeasurement late_ack_env after_serial))"

section \<open>Configuration: extractAdresses\<close>

text \<open>
  The address list of the configuration. The Go string is given as the sequence of runes
  that \<open>strings.Map\<close> visits (U+FFFD for a byte that is not UTF-8).
  \<open>unicode.IsDigit\<close> is decided by the range \<open>'0'..'9'\<close> up to U+00FF and by the
  table of decimal digits of package \<open>unicode\<close> beyond; that table is the parameter
  \<open>nd\<close>. \<open>unicode.IsSpace\<close>, used by \<open>strings.TrimSpace\<close>, is the White_Space
  property.
\<close>

type_synonym rune = nat

definition IsDigit :: "(rune \<Rightarrow> bool) \<Rightarrow> rune \<Rightarrow> bool" where
  "IsDigit nd r = (if r \<le> 0xFF then 0x30 \<le> r \<and> r \<le> 0x39 else nd r)"

definition IsSpace_rune :: "rune \<Rightarrow> bool" where
  "IsSpace_rune r =
     ((0x09 \<le> r \<and> r \<le> 0x0D) \<or> r = 0x20 \<or> r = 0x85 \<or> r = 0xA0 \<or> r = 0x1680
      \<or> (0x2000 \<le> r \<and> r \<le> 0x200A) \<or> r = 0x2028 \<or> r = 0x2029 \<or> r = 0x202F
      \<or> r = 0x205F \<or> r = 0x3000)"

text \<open>\<open>strings.Split(cleaned, ",")\<close>; \<open>cur\<close> is the part being collected.\<close>

fun split_loop :: "rune list \<Rightarrow> rune list \<Rightarrow> rune list list" where
  "split_loop cur [] = [cur]"
| "split_loop cur (r # rs) =
     (if r = 0x2C then cur # split_loop [] rs else split_loop (cur @ [r]) rs)"

definition TrimSpace :: "rune list \<Rightarrow> rune list" where
  "TrimSpace p = rev (dropWhile IsSpace_rune (rev (dropWhile IsSpace_rune p)))"

text \<open>
  \<open>strconv.ParseUint(part, 10, 8)\<close>: an error (\<open>None\<close>) for the empty string, for
  any character other than \<open>'0'..'9'\<close>, and for a value above 255.
\<close>

fun parse_digits :: "rune list \<Rightarrow> nat \<Rightarrow> nat option" where
  "parse_digits [] n = Some n"
| "parse_digits (r # rs) n =
     (if 0x30 \<le> r \<and> r \<le> 0x39 then parse_digits rs (n * 10 + (r - 0x30)) else None)"

definition ParseUint8 :: "rune list \<Rightarrow> nat option" where
  "ParseUint8 p =
     (if p = [] then None
      else (case parse_digits p 0 of
              None \<Rightarrow> None
            | Some n \<Rightarrow> if n > 255 then None else Some n))"

text \<open>The loop \<open>for i, part := range parts\<close> of \<open>extractAdresses\<close>.\<close>

fun extract_loop :: "nat \<Rightarrow> rune list list \<Rightarrow> state \<Rightarrow> state result" where
  "extract_loop i [] s = Ret s"
| "extract_loop i (part # parts) s =
     (if i \<ge> MAXNUMADR then Ret s
      else (let part' = TrimSpace part
            in if part' = [] then extract_loop (i + 1) parts s
               else (case ParseUint8 part' of
                       None \<Rightarrow> extract_loop (i + 1) parts s
                     | Some val \<Rightarrow>
                         if numAdresses s \<ge> MAXNUMADR then Panic
                         else extract_loop (i + 1) parts
                                (s\<lparr>scanAddress := (scanAddress s)(numAdresses s := of_nat val),
                                   numAdresses := numAdresses s + 1\<rparr>))))"

definition extractAdresses :: "(rune \<Rightarrow> bool) \<Rightarrow> rune list \<Rightarrow> state \<Rightarrow> state result" where
  "extractAdresses nd astr s =
     (let cleaned = filter (\<lambda>r. IsDigit nd r \<or> r = 0x2C \<or> r = 0x20) astr;
          parts = split_loop [] cleaned
      in extract_loop 0 parts s)"


section \<open>Properties of the frame codec\<close>

lemma ReadStrPort_bytes_text: "fst (snd (ReadStrPort_bytes raw)) = []"
  by (simp add: ReadStrPort_bytes_def Let_def)

lemma decodeResponse_text_empty: "decodeResponse raw = Inr (st, txt) \<Longrightarrow> txt = []"
  by (auto simp: decodeResponse_def ReadStrPort_bytes_def getValue_text_def Let_def
           split: if_splits)

text \<open>
  C1. The claim: for a non-empty, checksum-valid response frame, decoding returns the
  status byte together with the payload text between the status byte and the end-of-text
  marker. On the code, the frame ACK "23.5" ETX BCC (checksum \<open>0x1F\<close>) decodes to the
  status 6 and the empty text: \<open>ReadStrPort\<close> returns the constant \<open>""\<close> as its
  string, so the end-of-text search and the filter of \<open>getValue\<close> never see the
  payload. Given the bytes after the status byte, they do return the text "23.5"
  (\<open>getValue_text_payload\<close>).
\<close>

lemma getValue_text_payload:
  "getValue_text [0x32, 0x33, 0x2E, 0x35, 0x03, 0x1F] = [0x32, 0x33, 0x2E, 0x35]"
  by (simp add: getValue_text_def ETX_def IsPrint_def IsSpace_def)

theorem C1_payload_dropped:
  "decodeResponse [0x06, 0x32, 0x33, 0x2E, 0x35, 0x03, 0x1F] = Inr (6, [])"
  by (simp add: decodeResponse_def ReadStrPort_bytes_def getValue_text_def Let_def)

lemma bcc_loop_foldr: "bcc_loop bs acc = acc XOR foldr (XOR) bs 0"
  by (induction bs arbitrary: acc) (simp_all add: xor.assoc)

lemma foldr_xor_update:
  "i < length bs \<Longrightarrow> foldr (XOR) (bs[i := bs ! i XOR m]) (0::byte) = foldr (XOR) bs 0 XOR m"
proof (induction bs arbitrary: i)
  case Nil
  then show ?case by simp
next
  case (Cons b bs)
  show ?case
  proof (cases i)
    case 0
    then show ?thesis by (simp add: ac_simps)
  next
    case (Suc j)
    with Cons show ?thesis by (simp add: xor.assoc)
  qed
qed

lemma push_bit_one_nonzero: "k < 8 \<Longrightarrow> push_bit k (1::byte) \<noteq> 0"
proof
  assume k: "k < 8" and z: "push_bit k (1::byte) = 0"
  have "bit (push_bit k (1::byte)) k" using k by (simp add: bit_simps)
  with z k show False by simp
qed

lemma xor_flip_neq: "m \<noteq> 0 \<Longrightarrow> (x::byte) XOR m \<noteq> x"
proof
  assume m: "m \<noteq> 0" and e: "x XOR m = x"
  from e have "x XOR (x XOR m) = x XOR x" by simp
  then have "m = 0" by (simp add: xor.assoc[symmetric])
  with m show False by simp
qed

lemma decodeResponse_valid:
  "raw \<noteq> [] \<Longrightarrow> last raw = foldr (XOR) (butlast raw) 0 \<Longrightarrow>
     decodeResponse raw = Inr (uint ((raw[length raw - 1 := 0]) ! 0), [])"
  by (simp add: decodeResponse_def ReadStrPort_bytes_def getValue_text_def Let_def
      bcc_loop_foldr butlast_conv_take last_conv_nth)

lemma decodeResponse_invalid:
  "raw \<noteq> [] \<Longrightarrow> last raw \<noteq> foldr (XOR) (butlast raw) 0 \<Longrightarrow>
     decodeResponse raw = Inl BCCFailed"
  by (auto simp add: decodeResponse_def ReadStrPort_bytes_def getValue_text_def Let_def
      bcc_loop_foldr butlast_conv_take last_conv_nth)

lemma decodeResponse_flip:
  assumes "raw \<noteq> []" "last raw = foldr (XOR) (butlast raw) 0" "i < length raw - 1" "k < 8"
  shows "decodeResponse (raw[i := raw ! i XOR push_bit k 1]) = Inl BCCFailed"
proof -
  let ?m = "push_bit k (1::byte)"
  let ?raw' = "raw[i := raw ! i XOR ?m]"
  have ne: "?raw' \<noteq> []" using assms(1) by simp
  have l: "last ?raw' = last raw"
    using assms(1,3) by (simp add: last_conv_nth)
  have b: "butlast ?raw' = (butlast raw)[i := butlast raw ! i XOR ?m]"
    using assms(3) by (simp add: butlast_list_update nth_butlast)
  have "foldr (XOR) (butlast ?raw') 0 = foldr (XOR) (butlast raw) 0 XOR ?m"
    unfolding b using assms(3) by (intro foldr_xor_update) simp
  then have "last ?raw' \<noteq> foldr (XOR) (butlast ?raw') 0"
    using l assms(2) xor_flip_neq[OF push_bit_one_nonzero[OF assms(4)]] by metis
  then show ?thesis using ne by (rule decodeResponse_invalid[rotated])
qed

text \<open>
  C7. A zero-byte read fails with the empty-response error. A received byte sequence of
  length at least 1 decodes successfully exactly when its last byte is the XOR of all
  preceding bytes, and fails with the checksum error otherwise. Hence, in a frame whose
  trailing checksum is correct, flipping bit \<open>k\<close> of any byte \<open>i\<close> other than the
  checksum byte makes decoding fail with the checksum error.
\<close>

theorem C7_checksum:
  "decodeResponse [] = Inl NoDataRead \<and>
   (raw \<noteq> [] \<longrightarrow>
      ((\<exists>r. decodeResponse raw = Inr r) \<longleftrightarrow> last raw = foldr (XOR) (butlast raw) 0) \<and>
      (last raw \<noteq> foldr (XOR) (butlast raw) 0 \<longrightarrow> decodeResponse raw = Inl BCCFailed) \<and>
      (last raw = foldr (XOR) (butlast raw) 0 \<and> i < length raw - 1 \<and> k < 8 \<longrightarrow>
         decodeResponse (raw[i := raw ! i XOR push_bit k 1]) = Inl BCCFailed))"
proof -
  have e: "decodeResponse [] = Inl NoDataRead"
    by (simp add: decodeResponse_def ReadStrPort_bytes_def)
  show ?thesis
    using e decodeResponse_valid[of raw] decodeResponse_invalid[of raw]
      decodeResponse_flip[of raw i k]
    by (cases "last raw = foldr (XOR) (butlast raw) 0") auto
qed

theorem C7_checksum_witness:
  "(\<exists>r. decodeResponse [0x06, 0x32, 0x03, 0x37] = Inr r) \<and>
   decodeResponse [0x06, 0x33, 0x03, 0x37] = Inl BCCFailed \<and>
   decodeResponse [0x06, 0x32, 0x03, 0x36] = Inl BCCFailed"
  using C7_checksum[of "[0x06, 0x32, 0x03, 0x37]" 1 0]  C7_checksum[of "[0x06, 0x32, 0x03, 0x36]" 1 0]
  by simp

lemma take_bit_and_push_bit: "take_bit n (a::byte) AND push_bit n b = 0"
  by (rule bit_eqI) (auto simp: bit_simps)

lemma foldr_xor_init: "foldr (XOR) xs (c::byte) = foldr (XOR) xs 0 XOR c"
  by (induction xs) (simp_all add: ac_simps)

lemma adr_and_marker: "unat (adr::byte) \<le> 127 \<Longrightarrow> adr AND 0x80 = 0"
proof -
  assume a: "unat adr \<le> 127"
  have "adr < 2 ^ 7" using a by (simp add: word_less_nat_alt)
  then have t: "take_bit 7 adr = adr"
    by (simp add: mod_word_less take_bit_eq_mod)
  have "take_bit 7 adr AND push_bit 7 1 = 0"
    by (rule take_bit_and_push_bit)
  then show ?thesis using t by simp
qed

lemma adr_marker: "unat (adr::byte) \<le> 127 \<Longrightarrow> adr + 0x80 = adr OR 0x80"
  by (rule disjunctive_add_eq_or) (rule adr_and_marker)

lemma copy_chars_ok:
  "a + length cs \<le> TXBUFFLEN - 2 \<Longrightarrow> length tx = TXBUFFLEN \<Longrightarrow>
   \<exists>tx'. copy_chars cs a bcc tx = Inr (a + length cs, bcc_loop cs bcc, tx') \<and>
         length tx' = TXBUFFLEN \<and> take (a + length cs) tx' = take a tx @ cs"
proof (induction cs arbitrary: a bcc tx)
  case Nil
  then show ?case by simp
next
  case (Cons c cs)
  have a: "a < TXBUFFLEN - 2" "a < length tx" using Cons.prems by (auto simp: TXBUFFLEN_def)
  have "Suc a + length cs \<le> TXBUFFLEN - 2" using Cons.prems by simp
  from Cons.IH[OF this, of "tx[a := c]" "bcc XOR c"] Cons.prems(2)
  obtain tx' where
    t: "copy_chars cs (Suc a) (bcc XOR c) (tx[a := c]) = Inr (Suc a + length cs, bcc_loop cs (bcc XOR c), tx')"
       "length tx' = TXBUFFLEN" "take (Suc a + length cs) tx' = take (Suc a) (tx[a := c]) @ cs"
    by auto
  have "take (Suc a) (tx[a := c]) = take a tx @ [c]"
    using a(2) by (simp add: take_Suc_conv_app_nth)
  with t a show ?case by (simp add: Let_def)
qed

lemma copy_chars_overflow:
  "cs \<noteq> [] \<Longrightarrow> a + length cs > TXBUFFLEN - 2 \<Longrightarrow>
     copy_chars cs a bcc tx = Inl MessageExceedsBuffer"
proof (induction cs arbitrary: a bcc tx)
  case Nil
  then show ?case by simp
next
  case (Cons c cs)
  show ?case
  proof (cases "a \<ge> TXBUFFLEN - 2")
    case True
    then show ?thesis by simp
  next
    case False
    then have "cs \<noteq> []" "Suc a + length cs > TXBUFFLEN - 2" using Cons.prems by auto
    from Cons.IH[OF this] False show ?thesis by (simp add: Let_def)
  qed
qed

lemma WriteStrPort_frame_ok:
  assumes "length chars \<le> 2197"
  shows "WriteStrPort_frame chars adr =
           Inr ([adr + 0x80] @ chars @ [0x03, foldr (XOR) (chars @ [0x03]) 0])"
proof -
  let ?tx1 = "(replicate TXBUFFLEN (0::byte))[0 := adr + 0x80]"
  have len: "length ?tx1 = TXBUFFLEN" by simp
  have le: "1 + length chars \<le> TXBUFFLEN - 2" using assms by (simp add: TXBUFFLEN_def)
  from copy_chars_ok[OF le len, of 0] obtain tx2 where
    c: "copy_chars chars 1 0 ?tx1 = Inr (1 + length chars, bcc_loop chars 0, tx2)"
    and l2: "length tx2 = TXBUFFLEN"
    and t2: "take (1 + length chars) tx2 = take 1 ?tx1 @ chars"
    by auto
  have t1: "take 1 ?tx1 = [adr + 0x80]"
    by (simp add: TXBUFFLEN_def take_Suc_conv_app_nth)
  let ?a = "1 + length chars"
  let ?bcc = "bcc_loop chars 0 XOR ETX"
  have a: "?a < TXBUFFLEN - 1" "?a + 1 < TXBUFFLEN" using assms by (simp_all add: TXBUFFLEN_def)
  have tk: "take (?a + 2) (tx2[?a := ETX, ?a + 1 := ?bcc]) = take ?a tx2 @ [ETX, ?bcc]"
    using a l2 by (simp add: take_Suc_conv_app_nth numeral_2_eq_2 nth_list_update)
  have bcc: "?bcc = foldr (XOR) (chars @ [0x03]) 0"
    by (simp add: bcc_loop_foldr ETX_def foldr_xor_init[of chars 3])
  show ?thesis
    unfolding WriteStrPort_frame_def Let_def c
    using a l2 tk t2 t1 bcc by (simp add: ETX_def)
qed

lemma WriteStrPort_frame_overflow:
  assumes "length chars > 2197"
  shows "WriteStrPort_frame chars adr = Inl MessageExceedsBuffer"
proof -
  have "chars \<noteq> []" "1 + length chars > TXBUFFLEN - 2"
    using assms by (auto simp: TXBUFFLEN_def)
  from copy_chars_overflow[OF this] show ?thesis
    by (simp add: WriteStrPort_frame_def Let_def)
qed

text \<open>
  C8. For every command string and every device address in 0..127, the frame that
  \<open>WriteStrPort\<close> hands to the port is the address with the marker bit set
  (\<open>adr OR 0x80\<close>), the command bytes, the end-of-text byte \<open>0x03\<close>, and the XOR of
  the command bytes and the end-of-text byte; the address byte is not part of the
  checksum. A frame is written for every command of at most 2197 bytes
  (\<open>TXBUFFLEN - 3\<close>); a longer command is refused before anything is written.
\<close>

theorem C8_request_frame:
  "unat adr \<le> 127 \<Longrightarrow>
     (length chars \<le> 2197 \<longrightarrow>
        WriteStrPort_frame chars adr =
          Inr ([adr OR 0x80] @ chars @ [0x03, foldr (XOR) (chars @ [0x03]) 0]) \<and>
        txLog (snd (WriteStrPort e chars adr s)) =
          txLog s @ [[adr OR 0x80] @ chars @ [0x03, foldr (XOR) (chars @ [0x03]) 0]]) \<and>
     (length chars > 2197 \<longrightarrow>
        WriteStrPort e chars adr s = (Some MessageExceedsBuffer, s))"
proof -
  assume a: "unat adr \<le> 127"
  show ?thesis
  proof (cases "length chars \<le> 2197")
    case True
    have f: "WriteStrPort_frame chars adr =
          Inr ([adr OR 0x80] @ chars @ [0x03, foldr (XOR) (chars @ [0x03]) 0])"
      using WriteStrPort_frame_ok[OF True, of adr] adr_marker[OF a] by simp
    have "txLog (snd (WriteStrPort e chars adr s)) =
          txLog s @ [[adr OR 0x80] @ chars @ [0x03, foldr (XOR) (chars @ [0x03]) 0]]"
      unfolding WriteStrPort_def f by (simp add: Let_def split: write_outcome.splits)
    with f True show ?thesis by simp
  next
    case False
    then have "length chars > 2197" by simp
    from WriteStrPort_frame_overflow[OF this, of adr] False show ?thesis
      by (simp add: WriteStrPort_def)
  qed
qed

theorem C8_request_frame_witness:
  "unat (1::byte) \<le> 127 \<and> length cmdSN \<le> 2197 \<and>
   WriteStrPort_frame cmdSN 1 = Inr [0x81, 0x53, 0x4E, 0x20, 0x3F, 0x03, 0x01]"
  using C8_request_frame[of 1 cmdSN]
  by (simp add: cmdSN_def)

section \<open>Properties of the retry controller\<close>

text \<open>The frames of the two commands, and the equations that evaluate a concrete run.\<close>

lemma frame_SN: "WriteStrPort_frame cmdSN adr = Inr ([adr + 0x80] @ cmdSN @ [0x03, foldr (XOR) (cmdSN @ [0x03]) 0])"
  by (rule WriteStrPort_frame_ok) (simp add: cmdSN_def)

lemma frame_MEA: "WriteStrPort_frame cmdMEA adr = Inr ([adr + 0x80] @ cmdMEA @ [0x03, foldr (XOR) (cmdMEA @ [0x03]) 0])"
  by (rule WriteStrPort_frame_ok) (simp add: cmdMEA_def)

lemmas run_simps = getSerialNumber_def getSerialNumber_loop.simps getMeasurement_def
  getMeasurement_loop.simps getValue_def WriteStrPort_def ReadStrPort_def frame_SN frame_MEA
  ReadStrPort_bytes_def getValue_text_def init_state_def scripted_def Let_def
  MAXNUMADR_def maxRetrys_def ACK_def NAK_def RXBUFFLEN_def

lemma getSerialNumber_loop_step:
  assumes "adrCounter s < MAXNUMADR" "retryCnt s (adrCounter s) < maxRetrys"
    and "getValue e (SerNoRef (adrCounter s)) cmdSN (scanAddress s (adrCounter s)) s
           = Ret ((ps, er), s1)"
  shows "getSerialNumber_loop e s err =
     (if er = None \<and> ps \<ge> 0 then Ret (er, s1)
      else if ps = NAK then
        getSerialNumber_loop e
          (s1\<lparr>msgNAK := (msgNAK s1)(adrCounter s := msgNAK s1 (adrCounter s) + 1),
              retryCnt := (retryCnt s1)(adrCounter s := retryCnt s1 (adrCounter s) + 1)\<rparr>) er
      else
        getSerialNumber_loop e
          (s1\<lparr>retryCnt := (retryCnt s1)(adrCounter s := retryCnt s1 (adrCounter s) + 1)\<rparr>) er)"
  using assms by (subst getSerialNumber_loop.simps) (simp add: Let_def)

lemma getMeasurement_loop_step:
  assumes "adrCounter s < MAXNUMADR" "retryCnt s (adrCounter s) < maxRetrys"
    and "getValue e (ValueRef (adrCounter s)) cmdMEA (scanAddress s (adrCounter s)) s
           = Ret ((ps, er), s1)"
  shows "getMeasurement_loop e s err =
     (if er = None \<and> ps = ACK then
        Ret (er, s1\<lparr>timestamp := (timestamp s1)(adrCounter s := timeNow e (nowCount s1)),
                     nowCount := nowCount s1 + 1\<rparr>)
      else if ps = NAK then
        getMeasurement_loop e
          (s1\<lparr>msgNAK := (msgNAK s1)(adrCounter s := msgNAK s1 (adrCounter s) + 1),
              retryCnt := (retryCnt s1)(adrCounter s := retryCnt s1 (adrCounter s) + 1)\<rparr>) er
      else
        getMeasurement_loop e
          (s1\<lparr>retryCnt := (retryCnt s1)(adrCounter s := retryCnt s1 (adrCounter s) + 1)\<rparr>) er)"
  using assms by (subst getMeasurement_loop.simps) (simp add: Let_def)

lemma getValue_status_nonneg:
  "getValue e r c a s = Ret ((ps, er), s1) \<Longrightarrow> 0 \<le> ps"
  by (auto simp: getValue_def Let_def split: prod.splits option.splits if_splits)

text \<open>
  C9. The two commands use different success predicates. When the query of an attempt
  returns no error and the status \<open>ps\<close>: the serial-number loop stops with success,
  and its test \<open>ps \<ge> 0\<close> holds for every status byte; the measurement loop stops
  with success (and stamps the time) when \<open>ps\<close> is ACK, and otherwise counts the
  attempt (and the NAK, if it is one) and goes on with the next attempt.
\<close>

theorem C9_success_predicates:
  assumes "adrCounter s < MAXNUMADR" and "retryCnt s (adrCounter s) < maxRetrys"
  shows
   "(getValue e (SerNoRef (adrCounter s)) cmdSN (scanAddress s (adrCounter s)) s
        = Ret ((ps, None), s1) \<longrightarrow>
       0 \<le> ps \<and> getSerialNumber_loop e s err = Ret (None, s1)) \<and>
    (getValue e (ValueRef (adrCounter s)) cmdMEA (scanAddress s (adrCounter s)) s
        = Ret ((ps, None), s1) \<longrightarrow>
       (ps = ACK \<longrightarrow>
          getMeasurement_loop e s err =
            Ret (None, s1\<lparr>timestamp := (timestamp s1)(adrCounter s := timeNow e (nowCount s1)),
                           nowCount := nowCount s1 + 1\<rparr>)) \<and>
       (ps \<noteq> ACK \<longrightarrow>
          getMeasurement_loop e s err =
            getMeasurement_loop e
              (s1\<lparr>msgNAK := (msgNAK s1)(adrCounter s :=
                            msgNAK s1 (adrCounter s) + (if ps = NAK then 1 else 0)),
                  retryCnt := (retryCnt s1)(adrCounter s := retryCnt s1 (adrCounter s) + 1)\<rparr>)
              None))"
proof (intro conjI impI)
  assume g: "getValue e (SerNoRef (adrCounter s)) cmdSN (scanAddress s (adrCounter s)) s
        = Ret ((ps, None), s1)"
  show p: "0 \<le> ps" using g by (rule getValue_status_nonneg)
  show "getSerialNumber_loop e s err = Ret (None, s1)"
    using getSerialNumber_loop_step[OF assms g] p by simp
next
  assume g: "getValue e (ValueRef (adrCounter s)) cmdMEA (scanAddress s (adrCounter s)) s
        = Ret ((ps, None), s1)"
  {
    assume "ps = ACK"
    then show "getMeasurement_loop e s err =
            Ret (None, s1\<lparr>timestamp := (timestamp s1)(adrCounter s := timeNow e (nowCount s1)),
                           nowCount := nowCount s1 + 1\<rparr>)"
      using getMeasurement_loop_step[OF assms g] by simp
  }
  {
    assume "ps \<noteq> ACK"
    then show "getMeasurement_loop e s err =
            getMeasurement_loop e
              (s1\<lparr>msgNAK := (msgNAK s1)(adrCounter s :=
                            msgNAK s1 (adrCounter s) + (if ps = NAK then 1 else 0)),
                  retryCnt := (retryCnt s1)(adrCounter s := retryCnt s1 (adrCounter s) + 1)\<rparr>)
              None"
      using getMeasurement_loop_step[OF assms g] by simp
  }
qed


theorem C9_success_predicates_witness:
  "(\<exists>s1. getValue (scripted [PortRead [0x31, 0x31]]) (SerNoRef 0) cmdSN 1 (init_state [1] 1)
            = Ret ((0x31, None), s1) \<and>
         getSerialNumber_loop (scripted [PortRead [0x31, 0x31]]) (init_state [1] 1) None
            = Ret (None, s1)) \<and>
   (\<exists>s1. getValue (scripted [PortRead [0x06, 0x06]]) (ValueRef 0) cmdMEA 1 (init_state [1] 1)
            = Ret ((ACK, None), s1) \<and>
         getMeasurement_loop (scripted [PortRead [0x06, 0x06]]) (init_state [1] 1) None
            = Ret (None, s1\<lparr>timestamp := (timestamp s1)(0 := 0), nowCount := nowCount s1 + 1\<rparr>)) \<and>
   (\<exists>s1. getValue (scripted [PortRead [0x31, 0x31]]) (ValueRef 0) cmdMEA 1 (init_state [1] 1)
            = Ret ((0x31, None), s1) \<and>
         getMeasurement_loop (scripted [PortRead [0x31, 0x31]]) (init_state [1] 1) None
            = getMeasurement_loop (scripted [PortRead [0x31, 0x31]])
                (s1\<lparr>msgNAK := (msgNAK s1)(0 := msgNAK s1 0 + 0),
                    retryCnt := (retryCnt s1)(0 := retryCnt s1 0 + 1)\<rparr>) None)"
proof -
  let ?s = "init_state [1] 1"
  have a: "adrCounter ?s < MAXNUMADR" "retryCnt ?s (adrCounter ?s) < maxRetrys"
    by (simp_all add: init_state_def MAXNUMADR_def maxRetrys_def)
  have i: "adrCounter ?s = 0" "scanAddress ?s 0 = 1" "timeNow (scripted rs) k = k"
    for rs k by (simp_all add: init_state_def scripted_def)
  have g1: "\<exists>s1. getValue (scripted [PortRead [0x31, 0x31]]) (SerNoRef 0) cmdSN 1 ?s
            = Ret ((0x31, None), s1)"
    by (simp add: run_simps)
  have g2: "\<exists>s1. getValue (scripted [PortRead [0x06, 0x06]]) (ValueRef 0) cmdMEA 1 ?s
            = Ret ((ACK, None), s1)"
    by (simp add: run_simps)
  have g3: "\<exists>s1. getValue (scripted [PortRead [0x31, 0x31]]) (ValueRef 0) cmdMEA 1 ?s
            = Ret ((0x31, None), s1)"
    by (simp add: run_simps)
  from g1 obtain s1 where s1: "getValue (scripted [PortRead [0x31, 0x31]]) (SerNoRef 0) cmdSN 1 ?s
            = Ret ((0x31, None), s1)" ..
  from g2 obtain s2 where s2: "getValue (scripted [PortRead [0x06, 0x06]]) (ValueRef 0) cmdMEA 1 ?s
            = Ret ((ACK, None), s2)" ..
  from g3 obtain s3 where s3: "getValue (scripted [PortRead [0x31, 0x31]]) (ValueRef 0) cmdMEA 1 ?s
            = Ret ((0x31, None), s3)" ..
  have n2: "nowCount s2 = 0" using getValue_frame(9)[OF s2] by (simp add: init_state_def)
  have c1: "getSerialNumber_loop (scripted [PortRead [0x31, 0x31]]) ?s None = Ret (None, s1)"
    using C9_success_predicates[OF a, of "scripted [PortRead [0x31, 0x31]]" "0x31" s1 None] s1
    by (simp add: i)
  have c2: "getMeasurement_loop (scripted [PortRead [0x06, 0x06]]) ?s None
            = Ret (None, s2\<lparr>timestamp := (timestamp s2)(0 := 0), nowCount := nowCount s2 + 1\<rparr>)"
    using C9_success_predicates[OF a, of "scripted [PortRead [0x06, 0x06]]" ACK s2 None] s2
    by (simp add: i n2)
  have c3: "getMeasurement_loop (scripted [PortRead [0x31, 0x31]]) ?s None
            = getMeasurement_loop (scripted [PortRead [0x31, 0x31]])
                (s3\<lparr>msgNAK := (msgNAK s3)(0 := msgNAK s3 0 + 0),
                    retryCnt := (retryCnt s3)(0 := retryCnt s3 0 + 1)\<rparr>) None"
    using C9_success_predicates[OF a, of "scripted [PortRead [0x31, 0x31]]" "0x31" s3 None] s3
    by (simp add: i ACK_def NAK_def)
  from s1 c1 s2 c2 s3 c3 show ?thesis by blast
qed

text \<open>
  C3. The claim: for the serial-number command too, an error-free response with status
  NAK increments the NAK counter of the device and leads to another attempt. On the
  code, the response NAK with a correct checksum to the first serial-number query ends
  \<open>getSerialNumber\<close> with \<open>nil\<close> after that one query: the test
  \<open>err == nil && portStatus >= 0\<close> holds for every status byte, so the NAK branch
  below it is never taken; \<open>msgNAK\<close> and \<open>retryCnt\<close> stay 0.
\<close>

theorem C3_serial_number_accepts_NAK:
  "getSerialNumber (scripted [PortRead [0x15, 0x15]]) (init_state [1] 1) \<noteq> Panic \<and>
   fst (the_Ret (getSerialNumber (scripted [PortRead [0x15, 0x15]]) (init_state [1] 1))) = None \<and>
   msgNAK (snd (the_Ret (getSerialNumber (scripted [PortRead [0x15, 0x15]]) (init_state [1] 1)))) 0 = 0 \<and>
   retryCnt (snd (the_Ret (getSerialNumber (scripted [PortRead [0x15, 0x15]]) (init_state [1] 1)))) 0 = 0 \<and>
   rdCount (snd (the_Ret (getSerialNumber (scripted [PortRead [0x15, 0x15]]) (init_state [1] 1)))) = 1"
  by (simp add: run_simps)

section \<open>Properties of the counters and of the configured addresses\<close>

lemma split_loop_no_comma: "\<forall>r\<in>set ds. r \<noteq> 0x2C \<Longrightarrow> split_loop cur ds = [cur @ ds]"
  by (induction ds arbitrary: cur) auto

lemma parse_digits_value:
  "\<forall>r\<in>set ds. 0x30 \<le> r \<and> r \<le> 0x39 \<Longrightarrow>
     parse_digits ds n = Some (foldl (\<lambda>n r. n * 10 + (r - 0x30)) n ds)"
  by (induction ds arbitrary: n) auto

lemma TrimSpace_digits:
  assumes "\<forall>r\<in>set ds. 0x30 \<le> r \<and> r \<le> 0x39"
  shows "TrimSpace ds = ds"
proof -
  have ns: "\<And>r. r \<in> set ds \<Longrightarrow> \<not> IsSpace_rune r"
    using assms by (auto simp: IsSpace_rune_def)
  have d: "dropWhile IsSpace_rune xs = xs" if "\<And>r. r \<in> set xs \<Longrightarrow> \<not> IsSpace_rune r" for xs
    using that by (cases xs) auto
  show ?thesis unfolding TrimSpace_def using d[of ds] d[of "rev ds"] ns by simp
qed

lemma extractAdresses_number:
  assumes "ds \<noteq> []" and dig: "\<forall>r\<in>set ds. 0x30 \<le> r \<and> r \<le> 0x39"
    and v: "foldl (\<lambda>n r. n * 10 + (r - 0x30)) 0 ds \<le> 255"
    and n: "numAdresses s < MAXNUMADR"
  shows "extractAdresses nd ds s =
           Ret (s\<lparr>scanAddress := (scanAddress s)(numAdresses s :=
                       of_nat (foldl (\<lambda>n r. n * 10 + (r - 0x30)) 0 ds)),
                  numAdresses := numAdresses s + 1\<rparr>)"
proof -
  have f: "filter (\<lambda>r. IsDigit nd r \<or> r = 0x2C \<or> r = 0x20) ds = ds"
    using dig by (auto simp: IsDigit_def intro!: filter_True)
  have "\<forall>r\<in>set ds. r \<noteq> 0x2C" using dig by auto
  from split_loop_no_comma[OF this, of "[]"] have sp: "split_loop [] ds = [ds]" by simp
  show ?thesis
    unfolding extractAdresses_def Let_def f sp
    using assms(1) v n
    by (simp add: TrimSpace_digits[OF dig] ParseUint8_def parse_digits_value[OF dig] MAXNUMADR_def)
qed


lemma getValue_panic:
  assumes "MAXNUMADR \<le> unat adr"
    and "fst (WriteStrPort e cmdStr adr (store_str r [] s)) = None"
  shows "getValue e r cmdStr adr s = Panic"
  using assms
  by (cases "WriteStrPort e cmdStr adr (store_str r [] s)") (auto simp: getValue_def Let_def)

lemma getValue_msgSent:
  assumes "getValue e r cmdStr adr s = Ret (x, s')"
    and "fst (WriteStrPort e cmdStr adr (store_str r [] s)) = None"
  shows "unat adr < MAXNUMADR \<and> msgSent s' = (msgSent s)(unat adr := msgSent s (unat adr) + 1)"
  using assms
  by (cases r; auto simp: getValue_def WriteStrPort_def ReadStrPort_def Let_def
      split: sum.splits prod.splits option.splits write_outcome.splits read_outcome.splits if_splits)

text \<open>
  C10. \<open>getValue\<close> indexes \<open>msgSent\<close> and \<open>msgReceived\<close> by the address byte
  itself: when the address is at least 32 (\<open>MAXNUMADR\<close>) and the send succeeded, the
  increment of \<open>msgSent[adr]\<close> is out of bounds and the call panics; a call that
  returns after a successful send has an address below 32 and has incremented
  \<open>msgSent\<close> at that address. The NAK counter is indexed by the scan slot
  \<open>adrCounter\<close>: \<open>getValue\<close> leaves it alone and the loop increments it at the
  slot. The configuration accepts every decimal number up to 255 as an address:
  \<open>extractAdresses\<close> stores it without comparing it with \<open>MAXNUMADR\<close>.
\<close>

theorem C10_counter_index:
  "(MAXNUMADR \<le> unat adr \<and> fst (WriteStrPort e cmdStr adr (store_str r [] s)) = None \<longrightarrow>
      getValue e r cmdStr adr s = Panic) \<and>
   (getValue e r cmdStr adr s = Ret (x, s') \<and>
    fst (WriteStrPort e cmdStr adr (store_str r [] s)) = None \<longrightarrow>
      unat adr < MAXNUMADR \<and>
      msgSent s' = (msgSent s)(unat adr := msgSent s (unat adr) + 1)) \<and>
   (adrCounter s < MAXNUMADR \<and> retryCnt s (adrCounter s) < maxRetrys \<and>
    getValue e (ValueRef (adrCounter s)) cmdMEA (scanAddress s (adrCounter s)) s
      = Ret ((NAK, er), s1) \<longrightarrow>
      msgNAK s1 = msgNAK s \<and>
      getMeasurement_loop e s err =
        getMeasurement_loop e
          (s1\<lparr>msgNAK := (msgNAK s1)(adrCounter s := msgNAK s1 (adrCounter s) + 1),
              retryCnt := (retryCnt s1)(adrCounter s := retryCnt s1 (adrCounter s) + 1)\<rparr>) er) \<and>
   (ds \<noteq> [] \<and> (\<forall>c\<in>set ds. 0x30 \<le> c \<and> c \<le> 0x39) \<and>
    foldl (\<lambda>n c. n * 10 + (c - 0x30)) 0 ds \<le> 255 \<and> numAdresses s < MAXNUMADR \<longrightarrow>
      extractAdresses nd ds s =
        Ret (s\<lparr>scanAddress := (scanAddress s)(numAdresses s :=
                    of_nat (foldl (\<lambda>n c. n * 10 + (c - 0x30)) 0 ds)),
               numAdresses := numAdresses s + 1\<rparr>))"
proof (intro conjI impI)
  assume "MAXNUMADR \<le> unat adr \<and> fst (WriteStrPort e cmdStr adr (store_str r [] s)) = None"
  then show "getValue e r cmdStr adr s = Panic" by (simp add: getValue_panic)
next
  assume a: "getValue e r cmdStr adr s = Ret (x, s') \<and>
    fst (WriteStrPort e cmdStr adr (store_str r [] s)) = None"
  from getValue_msgSent[of e r cmdStr adr s x s'] a
  show "unat adr < MAXNUMADR" "msgSent s' = (msgSent s)(unat adr := msgSent s (unat adr) + 1)"
    by simp_all
next
  assume a: "adrCounter s < MAXNUMADR \<and> retryCnt s (adrCounter s) < maxRetrys \<and>
    getValue e (ValueRef (adrCounter s)) cmdMEA (scanAddress s (adrCounter s)) s
      = Ret ((NAK, er), s1)"
  then have "getValue e (ValueRef (adrCounter s)) cmdMEA (scanAddress s (adrCounter s)) s
      = Ret ((NAK, er), s1)" by simp
  from getValue_frame(6)[OF this] show "msgNAK s1 = msgNAK s" .
  from a getMeasurement_loop_step[of s e NAK er s1 err]
  show "getMeasurement_loop e s err =
        getMeasurement_loop e
          (s1\<lparr>msgNAK := (msgNAK s1)(adrCounter s := msgNAK s1 (adrCounter s) + 1),
              retryCnt := (retryCnt s1)(adrCounter s := retryCnt s1 (adrCounter s) + 1)\<rparr>) er"
    by simp
next
  assume "ds \<noteq> [] \<and> (\<forall>c\<in>set ds. 0x30 \<le> c \<and> c \<le> 0x39) \<and>
    foldl (\<lambda>n c. n * 10 + (c - 0x30)) 0 ds \<le> 255 \<and> numAdresses s < MAXNUMADR"
  then show "extractAdresses nd ds s =
        Ret (s\<lparr>scanAddress := (scanAddress s)(numAdresses s :=
                    of_nat (foldl (\<lambda>n c. n * 10 + (c - 0x30)) 0 ds)),
               numAdresses := numAdresses s + 1\<rparr>)"
    by (intro extractAdresses_number) simp_all
qed

theorem C10_counter_index_witness:
  "extractAdresses (\<lambda>r. False) [0x32, 0x30, 0x30] (init_state [] 1) =
     Ret ((init_state [] 1)\<lparr>scanAddress := (scanAddress (init_state [] 1))(0 := 200),
                            numAdresses := 1\<rparr>) \<and>
   getValue (scripted []) (SerNoRef 0) cmdSN 200 (init_state [200] 1) = Panic \<and>
   (\<exists>s1. getValue (scripted [PortRead [0x15, 0x15]]) (ValueRef 1) cmdMEA 1 (init_state [5, 1] 1\<lparr>adrCounter := 1\<rparr>)
            = Ret ((NAK, None), s1) \<and>
         msgSent s1 = (\<lambda>i. 0)(1 := 1) \<and> msgNAK s1 = (\<lambda>i. 0) \<and>
         getMeasurement_loop (scripted [PortRead [0x15, 0x15]]) (init_state [5, 1] 1\<lparr>adrCounter := 1\<rparr>) None =
           getMeasurement_loop (scripted [PortRead [0x15, 0x15]])
            (s1\<lparr>msgNAK := (msgNAK s1)(1 := msgNAK s1 1 + 1),
                retryCnt := (retryCnt s1)(1 := retryCnt s1 1 + 1)\<rparr>) None)"
proof -
  let ?s = "init_state [5, 1] 1\<lparr>adrCounter := 1\<rparr>"
  let ?e = "scripted [PortRead [0x15, 0x15]]"
  have w: "fst (WriteStrPort (scripted []) cmdSN 200 (store_str (SerNoRef 0) [] (init_state [200] 1))) = None"
    by (simp add: run_simps)
  have w2: "fst (WriteStrPort ?e cmdMEA 1 (store_str (ValueRef 1) [] ?s)) = None"
    by (simp add: run_simps)
  have c1: "extractAdresses (\<lambda>r. False) [0x32, 0x30, 0x30] (init_state [] 1) =
     Ret ((init_state [] 1)\<lparr>scanAddress := (scanAddress (init_state [] 1))(0 := 200),
                            numAdresses := 1\<rparr>)"
    using C10_counter_index[where ds="[0x32, 0x30, 0x30]" and nd="\<lambda>r. False"
        and s="init_state [] 1", THEN conjunct2, THEN conjunct2, THEN conjunct2]
    by (simp add: init_state_def MAXNUMADR_def)
  have c2: "getValue (scripted []) (SerNoRef 0) cmdSN 200 (init_state [200] 1) = Panic"
    using C10_counter_index[where adr=200 and e="scripted []" and cmdStr=cmdSN
        and r="SerNoRef 0" and s="init_state [200] 1", THEN conjunct1] w
    by (simp add: MAXNUMADR_def)
  have g: "\<exists>s1. getValue ?e (ValueRef 1) cmdMEA 1 ?s = Ret ((NAK, None), s1)"
    by (simp add: run_simps)
  then obtain s1 where s1: "getValue ?e (ValueRef 1) cmdMEA 1 ?s = Ret ((NAK, None), s1)" ..
  have i: "adrCounter ?s = 1" "scanAddress ?s 1 = 1" "retryCnt ?s 1 = 0" "msgSent ?s = (\<lambda>i. 0)"
     "msgNAK ?s = (\<lambda>i. 0)"
    by (simp_all add: init_state_def)
  from C10_counter_index[where adr=1 and e="?e" and cmdStr=cmdMEA and r="ValueRef 1"
        and s="?s" and x="(NAK, None)" and s'=s1, THEN conjunct2, THEN conjunct1]
      C10_counter_index[where e="?e" and s="?s" and er=None and ?s1.0=s1 and err=None,
        THEN conjunct2, THEN conjunct2, THEN conjunct1]
    s1 w2
  have c3: "msgSent s1 = (\<lambda>i. 0)(1 := 1) \<and> msgNAK s1 = (\<lambda>i. 0) \<and>
         getMeasurement_loop ?e ?s None =
           getMeasurement_loop ?e
            (s1\<lparr>msgNAK := (msgNAK s1)(1 := msgNAK s1 1 + 1),
                retryCnt := (retryCnt s1)(1 := retryCnt s1 1 + 1)\<rparr>) None"
    by (simp add: init_state_def MAXNUMADR_def maxRetrys_def)
  from c1 c2 s1 c3 show ?thesis by blast
qed

section \<open>Exhausted retries\<close>

lemma getValue_error:
  "getValue e r cmdStr adr s = Ret ((ps, er), s1) \<Longrightarrow> er = last_query_error e cmdStr adr s1"
  by (cases r; auto simp: getValue_def WriteStrPort_def ReadStrPort_def Let_def last_query_error_def
      split: sum.splits prod.splits option.splits write_outcome.splits read_outcome.splits if_splits)

lemma last_query_error_cong:
  "wrCount s2 = wrCount s1 \<Longrightarrow> rdCount s2 = rdCount s1 \<Longrightarrow>
     last_query_error e c a s2 = last_query_error e c a s1"
  by (simp add: last_query_error_def
      split: sum.splits write_outcome.splits read_outcome.splits)

lemma getSerialNumber_loop_exhausted:
  "getSerialNumber_loop e s err = Ret (x, s') \<Longrightarrow>
     maxRetrys \<le> retryCnt s' (adrCounter s) \<longrightarrow>
     (retryCnt s (adrCounter s) < maxRetrys \<or>
      (err = last_query_error e cmdSN (scanAddress s (adrCounter s)) s \<and> err \<noteq> None)) \<longrightarrow>
     x = last_query_error e cmdSN (scanAddress s (adrCounter s)) s' \<and> x \<noteq> None"
proof (induction rule: getSerialNumber_loop_induct)
  case (exit s err)
  then show ?case by auto
next
  case (accept s err s1 ps)
  from getValue_frame(1)[OF accept(3)] accept(2) show ?case by simp
next
  case (nak s err s1 er x s')
  let ?s2 = "s1\<lparr>msgNAK := (msgNAK s1)(adrCounter s := msgNAK s1 (adrCounter s) + 1),
               retryCnt := (retryCnt s1)(adrCounter s := retryCnt s1 (adrCounter s) + 1)\<rparr>"
  note fr = getValue_frame(1,2,4)[OF nak(3)]
  have "er = last_query_error e cmdSN (scanAddress s (adrCounter s)) s1"
    using nak(3) by (rule getValue_error)
  moreover have "last_query_error e cmdSN (scanAddress s (adrCounter s)) ?s2
      = last_query_error e cmdSN (scanAddress s (adrCounter s)) s1"
    by (rule last_query_error_cong) simp_all
  ultimately have "er = last_query_error e cmdSN (scanAddress ?s2 (adrCounter ?s2)) ?s2"
    using fr by simp
  with nak(4,6) fr show ?case by auto
next
  case (other s err s1 ps er x s')
  let ?s2 = "s1\<lparr>retryCnt := (retryCnt s1)(adrCounter s := retryCnt s1 (adrCounter s) + 1)\<rparr>"
  note fr = getValue_frame(1,2,4)[OF other(3)]
  have "er = last_query_error e cmdSN (scanAddress s (adrCounter s)) s1"
    using other(3) by (rule getValue_error)
  moreover have "last_query_error e cmdSN (scanAddress s (adrCounter s)) ?s2
      = last_query_error e cmdSN (scanAddress s (adrCounter s)) s1"
    by (rule last_query_error_cong) simp_all
  ultimately have "er = last_query_error e cmdSN (scanAddress ?s2 (adrCounter ?s2)) ?s2"
    using fr by simp
  moreover have "er \<noteq> None" using other(4) getValue_status_nonneg[OF other(3)] by simp
  ultimately show ?case using other(7) fr by auto
qed

lemma getMeasurement_loop_exhausted:
  "getMeasurement_loop e s err = Ret (x, s') \<Longrightarrow>
     maxRetrys \<le> retryCnt s' (adrCounter s) \<longrightarrow>
     (retryCnt s (adrCounter s) < maxRetrys \<or>
      err = last_query_error e cmdMEA (scanAddress s (adrCounter s)) s) \<longrightarrow>
     x = last_query_error e cmdMEA (scanAddress s (adrCounter s)) s'"
proof (induction rule: getMeasurement_loop_induct)
  case (exit s err)
  then show ?case by auto
next
  case (accept s err s1)
  from getValue_frame(1)[OF accept(3)] accept(2) show ?case by simp
next
  case (nak s err s1 er x s')
  let ?s2 = "s1\<lparr>msgNAK := (msgNAK s1)(adrCounter s := msgNAK s1 (adrCounter s) + 1),
               retryCnt := (retryCnt s1)(adrCounter s := retryCnt s1 (adrCounter s) + 1)\<rparr>"
  note fr = getValue_frame(1,2,4)[OF nak(3)]
  have "er = last_query_error e cmdMEA (scanAddress s (adrCounter s)) s1"
    using nak(3) by (rule getValue_error)
  moreover have "last_query_error e cmdMEA (scanAddress s (adrCounter s)) ?s2
      = last_query_error e cmdMEA (scanAddress s (adrCounter s)) s1"
    by (rule last_query_error_cong) simp_all
  ultimately have "er = last_query_error e cmdMEA (scanAddress ?s2 (adrCounter ?s2)) ?s2"
    using fr by simp
  with nak(5) fr show ?case by auto
next
  case (other s err s1 ps er x s')
  let ?s2 = "s1\<lparr>retryCnt := (retryCnt s1)(adrCounter s := retryCnt s1 (adrCounter s) + 1)\<rparr>"
  note fr = getValue_frame(1,2,4)[OF other(3)]
  have "er = last_query_error e cmdMEA (scanAddress s (adrCounter s)) s1"
    using other(3) by (rule getValue_error)
  moreover have "last_query_error e cmdMEA (scanAddress s (adrCounter s)) ?s2
      = last_query_error e cmdMEA (scanAddress s (adrCounter s)) s1"
    by (rule last_query_error_cong) simp_all
  ultimately have "er = last_query_error e cmdMEA (scanAddress ?s2 (adrCounter ?s2)) ?s2"
    using fr by simp
  with other(7) fr show ?case by auto
qed

text \<open>
  C4, as the code has it. When the attempts of a command are used up
  (\<open>retryCnt\<close> of the slot has reached \<open>maxRetrys\<close>), the loop returns the error
  of its last query. For the serial-number command that error is never \<open>nil\<close>. For the
  measurement command (entered with attempts left) it is \<open>nil\<close> when the last query
  was answered without error by a status other than ACK.
\<close>

theorem C4_exhausted_returns_last_error:
  "(getSerialNumber e s = Ret (err, s') \<and> maxRetrys \<le> retryCnt s' (adrCounter s) \<longrightarrow>
      err \<noteq> None \<and> err = last_query_error e cmdSN (scanAddress s (adrCounter s)) s') \<and>
   (getMeasurement e s = Ret (err, s') \<and> retryCnt s (adrCounter s) < maxRetrys \<and>
    maxRetrys \<le> retryCnt s' (adrCounter s) \<longrightarrow>
      err = last_query_error e cmdMEA (scanAddress s (adrCounter s)) s')"
proof (intro conjI impI)
  assume a: "getSerialNumber e s = Ret (err, s') \<and> maxRetrys \<le> retryCnt s' (adrCounter s)"
  let ?s2 = "s\<lparr>serNoStr := (serNoStr s)(adrCounter s := []),
                retryCnt := (retryCnt s)(adrCounter s := 0)\<rparr>"
  from a have run: "getSerialNumber_loop e ?s2 None = Ret (err, s')"
    by (simp add: getSerialNumber_def Let_def split: if_splits)
  from getSerialNumber_loop_exhausted[OF run] a
  show "err \<noteq> None" "err = last_query_error e cmdSN (scanAddress s (adrCounter s)) s'"
    by (auto simp: maxRetrys_def)
next
  assume a: "getMeasurement e s = Ret (err, s') \<and> retryCnt s (adrCounter s) < maxRetrys \<and>
    maxRetrys \<le> retryCnt s' (adrCounter s)"
  obtain d s0 where d: "ReadStrPort e s = (d, s0)" by (cases "ReadStrPort e s")
  then have s0: "s0 = s\<lparr>rdCount := rdCount s + 1\<rparr>"
    by (auto simp: ReadStrPort_def Let_def split: read_outcome.splits)
  from a d have run: "getMeasurement_loop e s0 None = Ret (err, s')"
    by (simp add: getMeasurement_def)
  from getMeasurement_loop_exhausted[OF run] a
  show "err = last_query_error e cmdMEA (scanAddress s (adrCounter s)) s'"
    by (auto simp: s0)
qed

theorem C4_exhausted_returns_last_error_witness:
  "(\<exists>s'. getSerialNumber (scripted []) (init_state [1] 1) = Ret (Some ReadTimeout, s') \<and>
         maxRetrys \<le> retryCnt s' 0 \<and>
         Some ReadTimeout = last_query_error (scripted []) cmdSN 1 s') \<and>
   (\<exists>s'. getMeasurement (scripted (PortReadErr True # replicate 25 (PortRead [0x15, 0x15])))
            (init_state [1] 1) = Ret (None, s') \<and>
         maxRetrys \<le> retryCnt s' 0 \<and>
         None = last_query_error (scripted (PortReadErr True # replicate 25 (PortRead [0x15, 0x15])))
                  cmdMEA 1 s')"
proof -
  let ?s = "init_state [1] 1"
  let ?e = "scripted (PortReadErr True # replicate 25 (PortRead [0x15, 0x15]))"
  have i: "adrCounter ?s = 0" "scanAddress ?s 0 = 1" "retryCnt ?s 0 < maxRetrys"
    by (simp_all add: init_state_def maxRetrys_def)
  have "\<exists>s'. getSerialNumber (scripted []) ?s = Ret (Some ReadTimeout, s') \<and>
         maxRetrys \<le> retryCnt s' 0"
    by (simp add: run_simps)
  then obtain s1 where s1: "getSerialNumber (scripted []) ?s = Ret (Some ReadTimeout, s1)"
    "maxRetrys \<le> retryCnt s1 0" by blast
  have "\<exists>s'. getMeasurement ?e ?s = Ret (None, s') \<and> maxRetrys \<le> retryCnt s' 0"
    by (simp add: run_simps)
  then obtain s2 where s2: "getMeasurement ?e ?s = Ret (None, s2)"
    "maxRetrys \<le> retryCnt s2 0" by blast
  from C4_exhausted_returns_last_error[of "scripted []" ?s "Some ReadTimeout" s1, THEN conjunct1] s1 i
  have c1: "Some ReadTimeout = last_query_error (scripted []) cmdSN 1 s1" by simp
  from C4_exhausted_returns_last_error[of ?e ?s None s2, THEN conjunct2] s2 i
  have c2: "None = last_query_error ?e cmdMEA 1 s2" by simp
  from s1 s2 c1 c2 show ?thesis by blast
qed

text \<open>
  C4, as claimed: when all attempts are used up, a non-nil error is returned. After a
  discarded read, 25 responses NAK with a correct checksum to the measurement command use
  up all 25 attempts, and \<open>getMeasurement\<close> returns \<open>nil\<close>.
\<close>

theorem C4_exhausted_NAK_returns_nil:
  "getMeasurement (scripted (PortReadErr True # replicate 25 (PortRead [0x15, 0x15])))
     (init_state [1] 1) \<noteq> Panic \<and>
   fst (the_Ret (getMeasurement (scripted (PortReadErr True # replicate 25 (PortRead [0x15, 0x15])))
     (init_state [1] 1))) = None \<and>
   retryCnt (snd (the_Ret (getMeasurement (scripted (PortReadErr True # replicate 25 (PortRead [0x15, 0x15])))
     (init_state [1] 1)))) 0 = maxRetrys \<and>
   msgNAK (snd (the_Ret (getMeasurement (scripted (PortReadErr True # replicate 25 (PortRead [0x15, 0x15])))
     (init_state [1] 1)))) 0 = 25"
  by (simp add: run_simps)

lemma getValue_strings:
  assumes "getValue e r c a s = Ret (x, s1)"
  shows "serNoStr s1 = (case r of SerNoRef i \<Rightarrow> (serNoStr s)(i := []) | ValueRef i \<Rightarrow> serNoStr s)"
    and "valueStr s1 = (case r of SerNoRef i \<Rightarrow> valueStr s | ValueRef i \<Rightarrow> (valueStr s)(i := []))"
  using assms
  by (cases r; auto simp: getValue_def WriteStrPort_def ReadStrPort_def ReadStrPort_bytes_def
        getValue_text_def Let_def
      split: sum.splits prod.splits option.splits write_outcome.splits read_outcome.splits if_splits)+

lemma getSerialNumber_loop_fields:
  "getSerialNumber_loop e s err = Ret (x, s') \<Longrightarrow>
     timestamp s' = timestamp s \<and> valueStr s' = valueStr s \<and>
     (serNoStr s' = serNoStr s \<or> serNoStr s' = (serNoStr s)(adrCounter s := []))"
proof (induction rule: getSerialNumber_loop_induct)
  case (exit s err)
  then show ?case by simp
next
  case (accept s err s1 ps)
  from getValue_frame(5)[OF accept(3)] getValue_strings[OF accept(3)] show ?case by simp
next
  case (nak s err s1 er x s')
  from getValue_frame(2,5)[OF nak(3)] getValue_strings[OF nak(3)] nak(6) show ?case by auto
next
  case (other s err s1 ps er x s')
  from getValue_frame(2,5)[OF other(3)] getValue_strings[OF other(3)] other(7) show ?case by auto
qed

lemma getMeasurement_loop_fields:
  "getMeasurement_loop e s err = Ret (x, s') \<Longrightarrow>
     serNoStr s' = serNoStr s \<and>
     (maxRetrys \<le> retryCnt s' (adrCounter s) \<longrightarrow> timestamp s' = timestamp s) \<and>
     (valueStr s' = (valueStr s)(adrCounter s := []) \<or>
      (\<not> retryCnt s (adrCounter s) < maxRetrys \<and> valueStr s' = valueStr s))"
proof (induction rule: getMeasurement_loop_induct)
  case (exit s err)
  then show ?case by simp
next
  case (accept s err s1)
  from getValue_frame(1)[OF accept(3)] getValue_strings[OF accept(3)] accept(2)
  show ?case by simp
next
  case (nak s err s1 er x s')
  from getValue_frame(2,5)[OF nak(3)] getValue_strings[OF nak(3)] nak(5) show ?case by auto
next
  case (other s err s1 ps er x s')
  from getValue_frame(2,5)[OF other(3)] getValue_strings[OF other(3)] other(7) show ?case by auto
qed

text \<open>
  C5, as the code has it. When the attempts of a command are used up, the time stamps
  and the string of the other command are as before, and the string that the command
  writes (the serial number for \<open>getSerialNumber\<close>, the measurement for
  \<open>getMeasurement\<close> entered with attempts left) is the empty string in the slot:
  \<open>getSerialNumber\<close> and every call of \<open>getValue\<close> clear it first.
\<close>

theorem C5_exhausted_fields:
  "(getSerialNumber e s = Ret (err, s') \<and> maxRetrys \<le> retryCnt s' (adrCounter s) \<longrightarrow>
      timestamp s' = timestamp s \<and> valueStr s' = valueStr s \<and>
      serNoStr s' = (serNoStr s)(adrCounter s := [])) \<and>
   (getMeasurement e s = Ret (err, s') \<and> retryCnt s (adrCounter s) < maxRetrys \<and>
    maxRetrys \<le> retryCnt s' (adrCounter s) \<longrightarrow>
      timestamp s' = timestamp s \<and> serNoStr s' = serNoStr s \<and>
      valueStr s' = (valueStr s)(adrCounter s := []))"
proof (intro conjI impI)
  assume a: "getSerialNumber e s = Ret (err, s') \<and> maxRetrys \<le> retryCnt s' (adrCounter s)"
  let ?s2 = "s\<lparr>serNoStr := (serNoStr s)(adrCounter s := []),
                retryCnt := (retryCnt s)(adrCounter s := 0)\<rparr>"
  from a have run: "getSerialNumber_loop e ?s2 None = Ret (err, s')"
    by (simp add: getSerialNumber_def Let_def split: if_splits)
  from getSerialNumber_loop_fields[OF run]
  show "timestamp s' = timestamp s" "valueStr s' = valueStr s"
    "serNoStr s' = (serNoStr s)(adrCounter s := [])"
    by auto
next
  assume a: "getMeasurement e s = Ret (err, s') \<and> retryCnt s (adrCounter s) < maxRetrys \<and>
    maxRetrys \<le> retryCnt s' (adrCounter s)"
  obtain d s0 where d: "ReadStrPort e s = (d, s0)" by (cases "ReadStrPort e s")
  then have s0: "s0 = s\<lparr>rdCount := rdCount s + 1\<rparr>"
    by (auto simp: ReadStrPort_def Let_def split: read_outcome.splits)
  from a d have run: "getMeasurement_loop e s0 None = Ret (err, s')"
    by (simp add: getMeasurement_def)
  from getMeasurement_loop_fields[OF run] a
  show "timestamp s' = timestamp s" "serNoStr s' = serNoStr s"
    "valueStr s' = (valueStr s)(adrCounter s := [])"
    by (auto simp: s0)
qed

theorem C5_exhausted_fields_witness:
  "(\<exists>err s'. getSerialNumber (scripted []) stored_state = Ret (err, s') \<and>
         maxRetrys \<le> retryCnt s' 0 \<and>
         timestamp s' 0 = 7 \<and> valueStr s' 0 = map of_char ''23.5'' \<and> serNoStr s' 0 = []) \<and>
   (\<exists>err s'. getMeasurement (scripted []) stored_state = Ret (err, s') \<and>
         maxRetrys \<le> retryCnt s' 0 \<and>
         timestamp s' 0 = 7 \<and> serNoStr s' 0 = map of_char ''SN001'' \<and> valueStr s' 0 = [])"
proof -
  let ?s = stored_state
  have i: "adrCounter ?s = 0" "retryCnt ?s 0 < maxRetrys" "timestamp ?s 0 = 7"
    "serNoStr ?s 0 = map of_char ''SN001''" "valueStr ?s 0 = map of_char ''23.5''"
    by (simp_all add: stored_state_def init_state_def maxRetrys_def)
  have "\<exists>err s'. getSerialNumber (scripted []) ?s = Ret (err, s') \<and> maxRetrys \<le> retryCnt s' 0"
    by (simp add: run_simps stored_state_def)
  then obtain e1 s1 where s1: "getSerialNumber (scripted []) ?s = Ret (e1, s1)"
    "maxRetrys \<le> retryCnt s1 0" by blast
  have "\<exists>err s'. getMeasurement (scripted []) ?s = Ret (err, s') \<and> maxRetrys \<le> retryCnt s' 0"
    by (simp add: run_simps stored_state_def)
  then obtain e2 s2 where s2: "getMeasurement (scripted []) ?s = Ret (e2, s2)"
    "maxRetrys \<le> retryCnt s2 0" by blast
  from C5_exhausted_fields[of "scripted []" ?s e1 s1, THEN conjunct1] s1 i
  have c1: "timestamp s1 0 = 7 \<and> valueStr s1 0 = map of_char ''23.5'' \<and> serNoStr s1 0 = []"
    by simp
  from C5_exhausted_fields[of "scripted []" ?s e2 s2, THEN conjunct2] s2 i
  have c2: "timestamp s2 0 = 7 \<and> serNoStr s2 0 = map of_char ''SN001'' \<and> valueStr s2 0 = []"
    by simp
  from s1 s2 c1 c2 show ?thesis by blast
qed

text \<open>
  C5, as claimed: after exhausted retries the stored serial number, measurement and time
  stamp are as before. From a state whose slot 0 holds the serial number "SN001", 25
  responses with a wrong checksum to the serial-number command use up all attempts, and
  the stored serial number is then empty.
\<close>

theorem C5_serial_number_cleared:
  "getSerialNumber (scripted (replicate 25 (PortRead [0x06, 0x00]))) stored_state \<noteq> Panic \<and>
   fst (the_Ret (getSerialNumber (scripted (replicate 25 (PortRead [0x06, 0x00]))) stored_state))
     = Some BCCFailed \<and>
   retryCnt (snd (the_Ret (getSerialNumber (scripted (replicate 25 (PortRead [0x06, 0x00])))
     stored_state))) 0 = maxRetrys \<and>
   serNoStr stored_state 0 = map of_char ''SN001'' \<and>
   serNoStr (snd (the_Ret (getSerialNumber (scripted (replicate 25 (PortRead [0x06, 0x00])))
     stored_state))) 0 = []"
  by (simp add: run_simps stored_state_def)

section \<open>Properties of the scan scheduler\<close>

lemma getSerialNumber_loop_scans:
  "getSerialNumber_loop e s err = Ret (x, s') \<Longrightarrow>
     numScans s' = numScans s \<and> numScansMain s' = numScansMain s"
  by (induction rule: getSerialNumber_loop_induct)
     (auto dest: getValue_frame(7) getValue_frame(8))

lemma getMeasurement_loop_scans:
  "getMeasurement_loop e s err = Ret (x, s') \<Longrightarrow>
     numScans s' = numScans s \<and> numScansMain s' = numScansMain s"
  by (induction rule: getMeasurement_loop_induct)
     (auto dest: getValue_frame(7) getValue_frame(8))

lemma getSerialNumber_scans:
  "getSerialNumber e s = Ret (x, s') \<Longrightarrow>
     numScans s' = numScans s \<and> numScansMain s' = numScansMain s"
  by (auto simp: getSerialNumber_def Let_def split: if_splits
           dest: getSerialNumber_loop_scans)

lemma getMeasurement_scans:
  "getMeasurement e s = Ret (x, s') \<Longrightarrow>
     numScans s' = numScans s \<and> numScansMain s' = numScansMain s"
  by (auto simp: getMeasurement_def ReadStrPort_def Let_def
           split: prod.splits read_outcome.splits dest: getMeasurement_loop_scans)

lemma scan_addresses_scans:
  "scan_addresses e s = Ret s' \<Longrightarrow>
     numScans s' = numScans s \<and> numScansMain s' = numScansMain s"
proof (induction e s rule: scan_addresses.induct)
  case (1 e s)
  show ?case
  proof (cases "adrCounter s < numAdresses s")
    case False
    with "1.prems" show ?thesis by (subst (asm) scan_addresses.simps) simp
  next
    case True
    from "1.prems" True obtain err1 s1 err2 s2 where
      g1: "getSerialNumber e s = Ret (err1, s1)" and
      g2: "getMeasurement e s1 = Ret (err2, s2)" and
      r: "scan_addresses e (s2\<lparr>adrCounter := adrCounter s2 + 1\<rparr>) = Ret s'"
      by (subst (asm) scan_addresses.simps) (auto split: result.splits prod.splits)
    from "1.IH"[OF True g1 refl g2 refl r] getSerialNumber_scans[OF g1] getMeasurement_scans[OF g2]
    show ?thesis by simp
  qed
qed

lemma write_results_scans:
  "write_results n i s = Ret s' \<Longrightarrow>
     numScans s' = numScans s \<and> numScansMain s' = numScansMain s"
  by (induction n i s rule: write_results.induct) (auto split: if_splits)

lemma ReadStrPort_state: "snd (ReadStrPort e s) = s\<lparr>rdCount := rdCount s + 1\<rparr>"
  by (simp add: ReadStrPort_def Let_def split: read_outcome.splits)

lemma scan_cycle_scans:
  "scan_cycle e s = Ret s' \<Longrightarrow>
     numScans s' = numScans s \<and> numScansMain s' = numScansMain s"
proof -
  assume a: "scan_cycle e s = Ret s'"
  obtain d s4 where d: "ReadStrPort e s = (d, s4)" by (cases "ReadStrPort e s")
  then have s4: "s4 = s\<lparr>rdCount := rdCount s + 1\<rparr>"
    using ReadStrPort_state[of e s] by simp
  from a d obtain s5 where s5: "scan_addresses e (s4\<lparr>adrCounter := 0\<rparr>) = Ret s5"
    and w: "write_results (numAdresses s5) 0 s5 = Ret s'"
    by (auto simp: scan_cycle_def split: result.splits)
  from scan_addresses_scans[OF s5] write_results_scans[OF w] s4 show ?thesis by simp
qed

lemma main_loop_step:
  "main_loop (Suc fuel) e s =
     (if numScans s = 0 \<or> numScansMain s > 0 then
        (if tooEarly e (waitCount s) then main_loop fuel e (s\<lparr>waitCount := waitCount s + 1\<rparr>)
         else if \<not> portOpens e (openCount s) then
           main_loop fuel e
             (s\<lparr>waitCount := waitCount s + 1,
                numScansMain := (if numScansMain s > 0 then numScansMain s - 1 else numScansMain s),
                openCount := openCount s + 1\<rparr>)
         else (case scan_cycle e
                     (s\<lparr>waitCount := waitCount s + 1,
                        numScansMain := (if numScansMain s > 0 then numScansMain s - 1
                                         else numScansMain s),
                        openCount := openCount s + 1\<rparr>) of
                 Panic \<Rightarrow> Some Panic
               | Ret s6 \<Rightarrow> main_loop fuel e s6))
      else Some (Ret s))"
  by (simp add: main_loop.simps Let_def)

lemma main_loop_unbounded:
  "numScans s = 0 \<Longrightarrow> main_loop fuel e s \<noteq> Some (Ret s')"
proof (induction fuel arbitrary: s)
  case 0
  then show ?case by (simp add: main_loop.simps)
next
  case (Suc fuel)
  have IH: "\<And>t. numScans t = 0 \<Longrightarrow> main_loop fuel e t \<noteq> Some (Ret s')"
    by (rule Suc.IH)
  let ?s3 = "s\<lparr>waitCount := waitCount s + 1,
                numScansMain := (if numScansMain s > 0 then numScansMain s - 1 else numScansMain s),
                openCount := openCount s + 1\<rparr>"
  have a: "main_loop fuel e (s\<lparr>waitCount := waitCount s + 1\<rparr>) \<noteq> Some (Ret s')"
    using Suc.prems by (intro IH) simp
  have b: "main_loop fuel e ?s3 \<noteq> Some (Ret s')"
    using Suc.prems by (intro IH) simp
  have c: "main_loop fuel e s6 \<noteq> Some (Ret s')" if "scan_cycle e ?s3 = Ret s6" for s6
    using scan_cycle_scans[OF that] Suc.prems by (intro IH) simp
  show ?case
    unfolding main_loop_step using Suc.prems a b c
    by (cases "scan_cycle e ?s3") auto
qed

lemma main_loop_bounded:
  "0 < numScans s \<Longrightarrow> \<forall>k. \<not> tooEarly e k \<Longrightarrow> nat (numScansMain s) = n \<Longrightarrow>
     main_loop (Suc n) e s \<noteq> None"
proof (induction n arbitrary: s)
  case 0
  then show ?case unfolding main_loop_step by simp
next
  case (Suc n)
  have pos: "0 < numScansMain s" using Suc.prems(3) by simp
  let ?s3 = "s\<lparr>waitCount := waitCount s + 1,
                numScansMain := (if numScansMain s > 0 then numScansMain s - 1 else numScansMain s),
                openCount := openCount s + 1\<rparr>"
  have IH: "\<And>t. numScans t = numScans s \<Longrightarrow> numScansMain t = numScansMain s - 1 \<Longrightarrow>
              main_loop (Suc n) e t \<noteq> None"
    using Suc.prems by (intro Suc.IH) auto
  have b: "main_loop (Suc n) e ?s3 \<noteq> None"
    using pos by (intro IH) simp_all
  have c: "main_loop (Suc n) e s6 \<noteq> None" if "scan_cycle e ?s3 = Ret s6" for s6
    using scan_cycle_scans[OF that] pos by (intro IH) simp_all
  show ?case
    unfolding main_loop_step[of "Suc n"] using Suc.prems(2) pos b c
    by (cases "scan_cycle e ?s3") auto
qed

text \<open>
  C6, as the code has it. With a bounded scan count (\<open>numScans > 0\<close>), once the
  remaining-scan counter is zero the loop condition is false: the loop ends without
  another scan and \<open>main\<close> returns, so the process ends by itself. When the scan delay
  never makes the loop wait, a bounded run ends (or panics) within one pass per remaining
  scan. With \<open>numScans = 0\<close> the loop never ends by its condition.
\<close>

theorem C6_bounded_scans_end:
  "(0 < numScans s \<and> numScansMain s \<le> 0 \<longrightarrow> main_loop (Suc fuel) e s = Some (Ret s)) \<and>
   (0 < numScans s \<and> (\<forall>k. \<not> tooEarly e k) \<longrightarrow>
      main_loop (Suc (nat (numScansMain s))) e s \<noteq> None) \<and>
   (numScans s = 0 \<longrightarrow> main_loop fuel e s \<noteq> Some (Ret s'))"
  using main_loop_unbounded[of s fuel e s'] main_loop_bounded[of s e "nat (numScansMain s)"]
  by (simp add: main_loop_step)

theorem C6_bounded_scans_end_witness:
  "main_loop 1 (scripted []) ((init_state [1] 1)\<lparr>numScansMain := 0\<rparr>)
     = Some (Ret ((init_state [1] 1)\<lparr>numScansMain := 0\<rparr>)) \<and>
   main_loop 2 (scripted []) (init_state [1] 1) \<noteq> None \<and>
   main_loop 1 (scripted []) (init_state [] 0) \<noteq> Some (Ret (init_state [] 0))"
proof -
  have n: "nat (numScansMain (init_state [1] 1)) = 1" "0 < numScans (init_state [1] 1)"
    "numScans (init_state [] 0) = 0" "tooEarly (scripted []) k = False"
    "0 < numScans ((init_state [1] 1)\<lparr>numScansMain := 0\<rparr>)"
    "numScansMain ((init_state [1] 1)\<lparr>numScansMain := 0\<rparr>) \<le> 0" for k
    by (simp_all add: init_state_def scripted_def)
  show ?thesis
    using C6_bounded_scans_end[of "(init_state [1] 1)\<lparr>numScansMain := 0\<rparr>" 0 "scripted []"]
      C6_bounded_scans_end[of "init_state [1] 1" 0 "scripted []"]
      C6_bounded_scans_end[of "init_state [] 0" 1 "scripted []" "init_state [] 0"]
    by (simp add: n numeral_2_eq_2)
qed

text \<open>
  C6, as claimed: with a bounded scan count the process idles after its last scan and
  does not end by itself. With the default \<open>numScans = 1\<close>, one configured address and
  a device that never answers, the main loop makes its one scan, hands one result to the
  database, and ends at the next test of its condition.
\<close>

theorem C6_main_returns:
  "main_loop 2 (scripted []) (init_state [1] 1) \<noteq> None \<and>
   main_loop 2 (scripted []) (init_state [1] 1) \<noteq> Some Panic \<and>
   numScansMain (the_Ret (the (main_loop 2 (scripted []) (init_state [1] 1)))) = 0 \<and>
   length (dbLog (the_Ret (the (main_loop 2 (scripted []) (init_state [1] 1))))) = 1"
  by (simp add: numeral_2_eq_2 One_nat_def main_loop.simps run_simps scan_addresses.simps scan_cycle_def)

section \<open>The retry budget of the two commands\<close>

text \<open>
  The measurement loop does meet the claim when the attempts left suffice: \<open>n\<close> NAK
  responses followed by an ACK end it with success at query \<open>n + 1\<close> and \<open>n\<close>
  counted NAKs, provided \<open>retryCnt + n < maxRetrys\<close> on entry. Either loop makes at
  most as many queries as attempts are left.
\<close>

lemma getValue_reply:
  assumes "write_ok e (wrCount s) cmdStr adr" and "reply_status e (rdCount s) = Some st"
    and "unat adr < MAXNUMADR"
  shows "\<exists>s1. getValue e r cmdStr adr s = Ret ((uint st, None), s1) \<and>
              wrCount s1 = wrCount s + 1 \<and> rdCount s1 = rdCount s + 1"
  using assms
  by (cases r; auto simp: getValue_def WriteStrPort_def ReadStrPort_def Let_def
        write_ok_def reply_status_def
      split: sum.splits prod.splits option.splits write_outcome.splits read_outcome.splits)

lemma getMeasurement_loop_NAKs_then_ACK:
  assumes "adrCounter s < MAXNUMADR" and "unat (scanAddress s (adrCounter s)) < MAXNUMADR"
    and "retryCnt s (adrCounter s) + int n < maxRetrys"
    and "\<forall>j\<le>n. write_ok e (wrCount s + j) cmdMEA (scanAddress s (adrCounter s))"
    and "\<forall>j<n. reply_status e (rdCount s + j) = Some 0x15"
    and "reply_status e (rdCount s + n) = Some 0x06"
  shows "\<exists>s'. getMeasurement_loop e s err = Ret (None, s') \<and>
              msgNAK s' (adrCounter s) = msgNAK s (adrCounter s) + int n \<and>
              retryCnt s' (adrCounter s) = retryCnt s (adrCounter s) + int n \<and>
              timestamp s' (adrCounter s) = timeNow e (nowCount s)"
  using assms
proof (induction n arbitrary: s err)
  case 0
  let ?i = "adrCounter s"
  from 0 have w: "write_ok e (wrCount s) cmdMEA (scanAddress s ?i)" by simp
  from 0 have r: "reply_status e (rdCount s) = Some 0x06" by simp
  from getValue_reply[OF w r "0.prems"(2), of "ValueRef ?i"] obtain s1 where
    g: "getValue e (ValueRef ?i) cmdMEA (scanAddress s ?i) s = Ret ((ACK, None), s1)"
    by (auto simp: ACK_def)
  from "0.prems"(3) have lt: "retryCnt s ?i < maxRetrys" by simp
  note fr = getValue_frame[OF g]
  show ?case
    using getMeasurement_loop_step[OF "0.prems"(1) lt g, of err] fr by simp
next
  case (Suc n)
  let ?i = "adrCounter s"
  from Suc.prems(4) have w: "write_ok e (wrCount s) cmdMEA (scanAddress s ?i)"
    by (metis add.right_neutral le0)
  from Suc.prems(5) have r: "reply_status e (rdCount s) = Some 0x15"
    by (metis add.right_neutral zero_less_Suc)
  from getValue_reply[OF w r Suc.prems(2), of "ValueRef ?i"] obtain s1 where
    g: "getValue e (ValueRef ?i) cmdMEA (scanAddress s ?i) s = Ret ((NAK, None), s1)"
    and c: "wrCount s1 = wrCount s + 1" "rdCount s1 = rdCount s + 1"
    by (auto simp: NAK_def)
  from Suc.prems(3) have lt: "retryCnt s ?i < maxRetrys" by simp
  note fr = getValue_frame[OF g]
  let ?s2 = "s1\<lparr>msgNAK := (msgNAK s1)(?i := msgNAK s1 ?i + 1),
               retryCnt := (retryCnt s1)(?i := retryCnt s1 ?i + 1)\<rparr>"
  have step: "getMeasurement_loop e s err = getMeasurement_loop e ?s2 None"
    using getMeasurement_loop_step[OF Suc.prems(1) lt g, of err] by simp
  have p1: "adrCounter ?s2 < MAXNUMADR" using Suc.prems(1) fr by simp
  have p2: "unat (scanAddress ?s2 (adrCounter ?s2)) < MAXNUMADR" using Suc.prems(2) fr by simp
  have p3: "retryCnt ?s2 (adrCounter ?s2) + int n < maxRetrys" using Suc.prems(3) fr by simp
  have p4: "\<forall>j\<le>n. write_ok e (wrCount ?s2 + j) cmdMEA (scanAddress ?s2 (adrCounter ?s2))"
  proof (intro allI impI)
    fix j assume "j \<le> n"
    then have "Suc j \<le> Suc n" by simp
    with Suc.prems(4) have "write_ok e (wrCount s + Suc j) cmdMEA (scanAddress s ?i)" by blast
    then show "write_ok e (wrCount ?s2 + j) cmdMEA (scanAddress ?s2 (adrCounter ?s2))"
      using fr c by simp
  qed
  have p5: "\<forall>j<n. reply_status e (rdCount ?s2 + j) = Some 0x15"
  proof (intro allI impI)
    fix j assume "j < n"
    then have "Suc j < Suc n" by simp
    with Suc.prems(5) have "reply_status e (rdCount s + Suc j) = Some 0x15" by blast
    then show "reply_status e (rdCount ?s2 + j) = Some 0x15" using c by simp
  qed
  have p6: "reply_status e (rdCount ?s2 + n) = Some 0x06" using Suc.prems(6) c by simp
  from Suc.IH[OF p1 p2 p3 p4 p5 p6, of None] obtain s' where
    "getMeasurement_loop e ?s2 None = Ret (None, s')"
    "msgNAK s' (adrCounter ?s2) = msgNAK ?s2 (adrCounter ?s2) + int n"
    "retryCnt s' (adrCounter ?s2) = retryCnt ?s2 (adrCounter ?s2) + int n"
    "timestamp s' (adrCounter ?s2) = timeNow e (nowCount ?s2)"
    by blast
  with step fr show ?case by simp
qed


lemma getValue_wrCount:
  "getValue e r c a s = Ret (x, s1) \<Longrightarrow> wrCount s1 \<le> wrCount s + 1"
  by (cases r; auto simp: getValue_def WriteStrPort_def ReadStrPort_def Let_def
      split: sum.splits prod.splits option.splits write_outcome.splits read_outcome.splits if_splits)

lemma getSerialNumber_loop_attempts:
  "getSerialNumber_loop e s err = Ret (x, s') \<Longrightarrow>
     int (wrCount s') \<le> int (wrCount s) + max 0 (maxRetrys - retryCnt s (adrCounter s))"
proof (induction rule: getSerialNumber_loop_induct)
  case (exit s err)
  then show ?case by simp
next
  case (accept s err s1 ps)
  from getValue_wrCount[OF accept(3)] accept(2) show ?case by simp
next
  case (nak s err s1 er x s')
  from getValue_wrCount[OF nak(3)] getValue_frame(1,2)[OF nak(3)] nak(2,6) show ?case by simp
next
  case (other s err s1 ps er x s')
  from getValue_wrCount[OF other(3)] getValue_frame(1,2)[OF other(3)] other(2,7)
  show ?case by simp
qed

lemma getMeasurement_loop_attempts:
  "getMeasurement_loop e s err = Ret (x, s') \<Longrightarrow>
     int (wrCount s') \<le> int (wrCount s) + max 0 (maxRetrys - retryCnt s (adrCounter s))"
proof (induction rule: getMeasurement_loop_induct)
  case (exit s err)
  then show ?case by simp
next
  case (accept s err s1)
  from getValue_wrCount[OF accept(3)] accept(2) show ?case by simp
next
  case (nak s err s1 er x s')
  from getValue_wrCount[OF nak(3)] getValue_frame(1,2)[OF nak(3)] nak(2,5) show ?case by simp
next
  case (other s err s1 ps er x s')
  from getValue_wrCount[OF other(3)] getValue_frame(1,2)[OF other(3)] other(2,7)
  show ?case by simp
qed

lemma getSerialNumber_attempts:
  "getSerialNumber e s = Ret (x, s') \<Longrightarrow> int (wrCount s') \<le> int (wrCount s) + maxRetrys"
  by (auto simp: getSerialNumber_def Let_def maxRetrys_def split: if_splits
           dest!: getSerialNumber_loop_attempts)

lemma getMeasurement_attempts:
  "getMeasurement e s = Ret (x, s') \<Longrightarrow>
     int (wrCount s') \<le> int (wrCount s) + max 0 (maxRetrys - retryCnt s (adrCounter s))"
  by (auto simp: getMeasurement_def ReadStrPort_def Let_def
           split: prod.splits read_outcome.splits dest!: getMeasurement_loop_attempts)

text \<open>
  C2. The claim: each command makes at most \<open>maxRetries\<close> attempts, counted from zero
  for that command; N - 1 NAK responses followed by an ACK, with N at most
  \<open>maxRetries\<close>, make the measurement command succeed at attempt N with N - 1 counted
  NAKs. On the code, \<open>getMeasurement\<close> does not reset \<open>retryCnt\<close> as
  \<open>getSerialNumber\<close> does: after a serial-number command that succeeded at its third
  attempt (counter 2), 24 NAK responses followed by an ACK (N = 25) end the measurement
  command after 23 queries, with 23 counted NAKs, no success (no time stamp is taken)
  and the return value \<open>nil\<close>; the ACK is never read.
\<close>

theorem C2_measurement_continues_count:
  "getSerialNumber late_ack_env (init_state [1] 1) \<noteq> Panic \<and>
   fst (the_Ret (getSerialNumber late_ack_env (init_state [1] 1))) = None \<and>
   retryCnt after_serial 0 = 2 \<and>
   getMeasurement late_ack_env after_serial \<noteq> Panic \<and>
   fst (the_Ret (getMeasurement late_ack_env after_serial)) = None \<and>
   retryCnt after_measurement 0 = 25 \<and>
   msgNAK after_measurement 0 = 23 \<and>
   wrCount after_measurement - wrCount after_serial = 23 \<and>
   rdCount after_measurement = 27 \<and>
   nowCount after_measurement = 0 \<and>
   timestamp after_measurement 0 = timestamp after_serial 0"
  by (simp add: after_measurement_def after_serial_def late_ack_env_def run_simps nth_append)



end
